theory Spec2Isabelle
  imports Complex_Main
begin

section \<open>Data model\<close>

text \<open>
  Go's \<open>int\<close> and \<open>int64\<close> values (token ids, dimensions, lengths, counters) are
  modelled as \<open>int\<close>. The only arithmetic of the modelled code that can leave the 64-bit
  range is the element count of \<open>zeroTensorForInput\<close>, where the wrap-around is written
  out (\<open>wrap64\<close>). Go strings are byte sequences: \<open>string\<close>.
\<close>

datatype error =
    TokenizerNil
  | SessionNil
  | BatchNot1
  | CreateInputIds
  | CreateAttentionMask
  | CreatePositionIds
  | UnsupportedInputName string
  | CreateZeroTensor
  | OnnxRun
  | LogitsMissing
  | LogitsNotFloat32
  | UnexpectedLogitsShape
  | ConfigNil
  | UnsupportedLayerType string
  | DecodeError
  | Panic

text \<open>transformers/config: the fields of \<open>Config\<close> (the raw JSON map is left out).\<close>

record Config =
  modelType :: string
  vocabSize :: int
  eosTokenID :: int
  bosTokenID :: int
  padTokenID :: int
  numHiddenLayers :: int
  numAttentionHeads :: int
  numKeyValueHeads :: int
  hiddenSize :: int
  convLCache :: int
  layerTypes :: "string list"
  stopStrings :: "string list"

definition EOS_TOKEN_ID :: "Config \<Rightarrow> int" where
  "EOS_TOKEN_ID c = eosTokenID c"

definition LayerTypes :: "Config \<Rightarrow> string list" where
  "LayerTypes c = layerTypes c"

definition StopStrings :: "Config \<Rightarrow> string list" where
  "StopStrings c = stopStrings c"

datatype IOPreset = IOPresetAuto | IOPresetSimpleCausal | IOPresetLFM2

text \<open>
  A \<open>float32\<close> with the values that Go's comparison distinguishes: \<open>f32_gt\<close> is Go's
  \<open>x > y\<close> (false whenever an operand is NaN).
\<close>

datatype float32 = NaN | NegInf | Fin real | PosInf

fun f32_gt :: "float32 \<Rightarrow> float32 \<Rightarrow> bool" where
  "f32_gt NaN y = False"
| "f32_gt x NaN = False"
| "f32_gt PosInf PosInf = False"
| "f32_gt PosInf y = True"
| "f32_gt x PosInf = False"
| "f32_gt NegInf y = False"
| "f32_gt (Fin a) NegInf = True"
| "f32_gt (Fin a) (Fin b) = (b < a)"

text \<open>Tensors built by the package: a shape and a typed buffer.\<close>

datatype tensor_data = Int64Data "int list" | Float32Data "float32 list"

record tensor =
  tshape :: "int list"
  tdata :: tensor_data

text \<open>
  A value the session hands back in an output slot: a float32 tensor (shape, data), or
  any other \<open>onnx.Value\<close>.
\<close>

datatype ort_value = TensorF32 "int list" "float32 list" | OtherValue

datatype TensorElementDataType =
    ElemUndefined | ElemFloat | ElemUint8 | ElemInt8 | ElemUint16 | ElemInt16
  | ElemInt32 | ElemInt64 | ElemString | ElemBool | ElemFloat16 | ElemDouble
  | ElemUint32 | ElemUint64

record InputOutputInfo =
  Name :: string
  Dimensions :: "int list"
  DataType :: TensorElementDataType

text \<open>
  The execution engine is outside the repository. It is a parameter of the model, in the
  form of a test double:
  \<^item> \<open>newTensorOk n t\<close>: whether the \<open>n\<close>-th call of \<open>onnx.NewTensor\<close> of the run,
    asked for tensor \<open>t\<close>, succeeds;
  \<^item> \<open>maxAlloc\<close>: the largest size in bytes that \<open>make\<close> allocates for a slice; on a
    larger size (as on a negative length) \<open>make\<close> panics. It is a constant of the Go
    runtime (\<open>2 ^ 48\<close> on amd64);
  \<^item> a session is its \<open>Run\<close>: the \<open>n\<close>-th call on the given inputs fails (\<open>None\<close>)
    or fills the output slots (a \<open>nil\<close> slot is \<open>None\<close>).
  The \<open>world\<close> counts what the double sees: tensors constructed and destroyed by the
  package, calls of \<open>Run\<close>, output values allocated by \<open>Run\<close> and destroyed.
\<close>

record runtime =
  newTensorOk :: "nat \<Rightarrow> tensor \<Rightarrow> bool"
  maxAlloc :: int

type_synonym session = "nat \<Rightarrow> tensor list \<Rightarrow> ort_value option list option"

record world =
  newCalls :: nat
  constructed :: nat
  destroyed :: nat
  runCalls :: nat
  outAllocated :: nat
  outDestroyed :: nat

record ModelForCausalLM =
  modelID :: string
  config :: Config
  session :: "session option"
  ioPreset :: IOPreset
  inputNames :: "string list"
  outputNames :: "string list"
  dtype :: string
  inputInfo :: "string \<Rightarrow> InputOutputInfo option"

record PipelineStreamEvent =
  TokenID :: int
  DeltaText :: string
  FullText :: string
  Step :: int
  Done :: bool

record GenerationOptions =
  MaxNewTokens :: int
  DoSample :: bool
  Streamer :: "(PipelineStreamEvent \<Rightarrow> bool) option"
  StopSequences :: "string list"

text \<open>
  A tokenizer is its \<open>Decode\<close> method, by its signature \<open>(string, error)\<close>; the
  pointer may be nil (\<open>None\<close>). The repository's own \<open>Decode\<close> always returns a nil
  error; the loop is modelled for any \<open>Decode\<close> of that signature.
\<close>

type_synonym Tokenizer = "int list \<Rightarrow> error + string"

section \<open>Strings\<close>

text \<open>\<open>strings.HasPrefix\<close>, \<open>strings.Index\<close> (-1 when absent) and \<open>strings.Contains\<close>.\<close>

fun has_prefix :: "string \<Rightarrow> string \<Rightarrow> bool" where
  "has_prefix s [] = True"
| "has_prefix [] (p # ps) = False"
| "has_prefix (c # s) (p # ps) = (c = p \<and> has_prefix s ps)"

fun strings_Index :: "string \<Rightarrow> string \<Rightarrow> int" where
  "strings_Index [] sub = (if sub = [] then 0 else - 1)"
| "strings_Index (c # s) sub =
     (if has_prefix (c # s) sub then 0
      else (let r = strings_Index s sub in if r < 0 then - 1 else r + 1))"

definition strings_Contains :: "string \<Rightarrow> string \<Rightarrow> bool" where
  "strings_Contains s sub = (0 \<le> strings_Index s sub)"

text \<open>\<open>fmt.Sprintf("%d", n)\<close> for a non-negative index.\<close>

definition digit_char :: "nat \<Rightarrow> char" where
  "digit_char d = ''0123456789'' ! d"

function itoa :: "nat \<Rightarrow> string" where
  "itoa n = (if n < 10 then [digit_char n] else itoa (n div 10) @ [digit_char (n mod 10)])"
  by pat_completeness auto
termination
  by (relation "measure id") auto

declare itoa.simps [simp del]

section \<open>IO schema resolver (types.go)\<close>

definition simpleCausalIONames :: "error + (string list \<times> string list)" where
  "simpleCausalIONames = Inr ([''input_ids'', ''attention_mask''], [''logits''])"

text \<open>The first loop of \<open>lfm2IONames\<close>: one layer at a time, by index.\<close>

fun lfm2_inputs :: "nat \<Rightarrow> string list \<Rightarrow> string list \<Rightarrow> error + string list" where
  "lfm2_inputs layerIdx [] inputs = Inr inputs"
| "lfm2_inputs layerIdx (t # ts) inputs =
     (if t = ''full_attention'' then
        lfm2_inputs (Suc layerIdx) ts
          (inputs @ [''past_key_values.'' @ itoa layerIdx @ ''.key'',
                     ''past_key_values.'' @ itoa layerIdx @ ''.value''])
      else if t = ''conv'' then
        lfm2_inputs (Suc layerIdx) ts (inputs @ [''past_conv.'' @ itoa layerIdx])
      else Inl (UnsupportedLayerType t))"

text \<open>The second loop: the outputs, from the inputs in their order.\<close>

fun lfm2_outputs :: "string list \<Rightarrow> string list \<Rightarrow> string list" where
  "lfm2_outputs [] outputs = outputs"
| "lfm2_outputs (name # names) outputs =
     (if name = ''input_ids'' \<or> name = ''attention_mask'' \<or> name = ''position_ids''
      then lfm2_outputs names outputs
      else lfm2_outputs names (outputs @ [''present.'' @ name]))"

definition lfm2IONames :: "Config option \<Rightarrow> error + (string list \<times> string list)" where
  "lfm2IONames cfg =
     (case cfg of
        None \<Rightarrow> Inl ConfigNil
      | Some c \<Rightarrow>
          (case lfm2_inputs 0 (LayerTypes c) [''input_ids'', ''attention_mask'', ''position_ids''] of
             Inl e \<Rightarrow> Inl e
           | Inr inputs \<Rightarrow> Inr (inputs, lfm2_outputs inputs [''logits''])))"

section \<open>Tensor helpers (tensor\_helpers.go)\<close>

definition tensorFromInt64s ::
  "runtime \<Rightarrow> world \<Rightarrow> int list \<Rightarrow> int list \<Rightarrow> tensor option \<times> world" where
  "tensorFromInt64s ok w xs sh =
     (let t = \<lparr>tshape = sh, tdata = Int64Data xs\<rparr> in
      if newTensorOk ok (newCalls w) t
      then (Some t, w\<lparr>newCalls := Suc (newCalls w), constructed := Suc (constructed w)\<rparr>)
      else (None, w\<lparr>newCalls := Suc (newCalls w)\<rparr>))"

definition tensorFromFloat32s ::
  "runtime \<Rightarrow> world \<Rightarrow> float32 list \<Rightarrow> int list \<Rightarrow> tensor option \<times> world" where
  "tensorFromFloat32s ok w xs sh =
     (let t = \<lparr>tshape = sh, tdata = Float32Data xs\<rparr> in
      if newTensorOk ok (newCalls w) t
      then (Some t, w\<lparr>newCalls := Suc (newCalls w), constructed := Suc (constructed w)\<rparr>)
      else (None, w\<lparr>newCalls := Suc (newCalls w)\<rparr>))"

text \<open>\<open>Destroy\<close> on a tensor the package built, and on an output value of \<open>Run\<close>.\<close>

definition Destroy :: "world \<Rightarrow> world" where
  "Destroy w = w\<lparr>destroyed := Suc (destroyed w)\<rparr>"

definition DestroyOutput :: "world \<Rightarrow> world" where
  "DestroyOutput w = w\<lparr>outDestroyed := Suc (outDestroyed w)\<rparr>"

fun argmax_loop :: "float32 list \<Rightarrow> nat \<Rightarrow> nat \<Rightarrow> float32 \<Rightarrow> nat" where
  "argmax_loop [] i maxIdx maxVal = maxIdx"
| "argmax_loop (x # xs) i maxIdx maxVal =
     (if f32_gt x maxVal then argmax_loop xs (Suc i) i x
      else argmax_loop xs (Suc i) maxIdx maxVal)"

definition argmaxF32 :: "float32 list \<Rightarrow> nat" where
  "argmaxF32 xs = (case xs of [] \<Rightarrow> 0 | x # rest \<Rightarrow> argmax_loop rest 1 0 x)"

section \<open>Zero-filled optional inputs (model.go, zeroTensorForInput)\<close>

definition wrap64 :: "int \<Rightarrow> int" where
  "wrap64 x = (x + 2 ^ 63) mod 2 ^ 64 - 2 ^ 63"

text \<open>One iteration of the shape loop: index \<open>i\<close> of \<open>n\<close> dimensions, declared \<open>d\<close>.\<close>

definition zero_dim :: "bool \<Rightarrow> int \<Rightarrow> nat \<Rightarrow> nat \<Rightarrow> int \<Rightarrow> int" where
  "zero_dim isCache seqLen n i d =
     (if d \<le> 0 then
        (let v = (if i = 0 then 1 else if isCache then 0 else 1) in
         if \<not> isCache \<and> int i = int n - 1 \<and> 0 < seqLen then seqLen else v)
      else d)"

definition zero_shape :: "bool \<Rightarrow> int \<Rightarrow> int list \<Rightarrow> int list" where
  "zero_shape isCache seqLen dims =
     map (\<lambda>i. zero_dim isCache seqLen (length dims) i (dims ! i)) [0..<length dims]"

fun shape_count :: "int list \<Rightarrow> int \<Rightarrow> int" where
  "shape_count [] count = count"
| "shape_count (d # ds) count = shape_count ds (wrap64 (count * d))"

text \<open>
  \<open>make\<close> panics on a negative length and on a length whose size in bytes (8 for an
  \<open>int64\<close>, 4 for a \<open>float32\<close>) is above \<open>maxAlloc\<close>. A failure of \<open>onnx.NewTensor\<close>
  is returned as it is (\<open>CreateZeroTensor\<close>).
\<close>

definition zeroTensorForInput ::
  "runtime \<Rightarrow> ModelForCausalLM \<Rightarrow> world \<Rightarrow> string \<Rightarrow> int \<Rightarrow> (error + tensor) \<times> world" where
  "zeroTensorForInput ok m w name seqLen =
     (case inputInfo m name of
        None \<Rightarrow> (Inl (UnsupportedInputName name), w)
      | Some info \<Rightarrow>
          (let isCache = (strings_Contains name ''past'' \<or> strings_Contains name ''cache'');
               sh = zero_shape isCache seqLen (Dimensions info);
               count = shape_count sh 1
           in (case DataType info of
                 ElemInt64 \<Rightarrow>
                   if count < 0 \<or> maxAlloc ok < 8 * count then (Inl Panic, w)
                   else (case tensorFromInt64s ok w (replicate (nat count) 0) sh of
                           (None, w') \<Rightarrow> (Inl CreateZeroTensor, w')
                         | (Some t, w') \<Rightarrow> (Inr t, w'))
               | _ \<Rightarrow>
                   if count < 0 \<or> maxAlloc ok < 4 * count then (Inl Panic, w)
                   else (case tensorFromFloat32s ok w (replicate (nat count) (Fin 0)) sh of
                           (None, w') \<Rightarrow> (Inl CreateZeroTensor, w')
                         | (Some t, w') \<Rightarrow> (Inr t, w')))))"

section \<open>The decoding loop (model.go, generateSimpleCausal)\<close>

record loop_state =
  curIDs :: "int list"
  curMask :: "int list"
  generated :: "int list"
  fullText :: string
  step :: nat
  wld :: world

fun destroy_each :: "tensor list \<Rightarrow> world \<Rightarrow> world" where
  "destroy_each [] w = w"
| "destroy_each (v # vs) w = destroy_each vs (Destroy w)"

text \<open>
  The loop over \<open>m.inputNames\<close> that fills \<open>inputs\<close> and \<open>toDestroy\<close>. Each error
  branch destroys what the source destroys there, in the source's order. A panic is not
  an error value: it unwinds past the clean-up.
\<close>

fun assemble ::
  "runtime \<Rightarrow> ModelForCausalLM \<Rightarrow> int list \<Rightarrow> tensor \<Rightarrow> tensor \<Rightarrow> string list \<Rightarrow>
   tensor list \<Rightarrow> tensor list \<Rightarrow> world \<Rightarrow> (error + tensor list \<times> tensor list) \<times> world" where
  "assemble ok m ids inputTensor maskTensor [] inputs toDestroy w = (Inr (inputs, toDestroy), w)"
| "assemble ok m ids inputTensor maskTensor (name # names) inputs toDestroy w =
     (if name = ''input_ids'' then
        assemble ok m ids inputTensor maskTensor names (inputs @ [inputTensor]) toDestroy w
      else if name = ''attention_mask'' then
        assemble ok m ids inputTensor maskTensor names (inputs @ [maskTensor]) toDestroy w
      else if name = ''position_ids'' then
        (case tensorFromInt64s ok w (map int [0..<length ids]) [1, int (length ids)] of
           (None, w') \<Rightarrow> (Inl CreatePositionIds, Destroy (Destroy w'))
         | (Some t, w') \<Rightarrow>
             assemble ok m ids inputTensor maskTensor names (inputs @ [t]) (toDestroy @ [t]) w')
      else
        (case zeroTensorForInput ok m w name (int (length ids)) of
           (Inl e, w') \<Rightarrow>
             if e = Panic then (Inl Panic, w')
             else (Inl e, destroy_each toDestroy (Destroy (Destroy w')))
         | (Inr t, w') \<Rightarrow>
             assemble ok m ids inputTensor maskTensor names (inputs @ [t]) (toDestroy @ [t]) w'))"

text \<open>
  The loop over \<open>m.outputNames\<close> after a successful \<open>Run\<close>: \<open>outs\<close> are the output slots
  from the current index on (a slot the session did not fill is nil).
\<close>

fun scan_outputs ::
  "string list \<Rightarrow> ort_value option list \<Rightarrow> (int list \<times> float32 list) option \<Rightarrow> world \<Rightarrow>
   (error + (int list \<times> float32 list) option) \<times> world" where
  "scan_outputs [] outs logitsTensor w = (Inr logitsTensor, w)"
| "scan_outputs (name # names) outs logitsTensor w =
     (let val = (case outs of [] \<Rightarrow> None | v # rest \<Rightarrow> v) in
      if name \<noteq> ''logits'' then
        scan_outputs names (tl outs) logitsTensor
          (case val of None \<Rightarrow> w | Some v \<Rightarrow> DestroyOutput w)
      else
        (case val of
           None \<Rightarrow> (Inl LogitsMissing, w)
         | Some OtherValue \<Rightarrow> (Inl LogitsNotFloat32, w)
         | Some (TensorF32 sh raw) \<Rightarrow> scan_outputs names (tl outs) (Some (sh, raw)) w))"

text \<open>Selecting the next token from the logits tensor; the slice panics out of range.\<close>

definition select_next :: "int list \<Rightarrow> int list \<Rightarrow> float32 list \<Rightarrow> world \<Rightarrow> (error + int) \<times> world" where
  "select_next ids sh raw w =
     (if length sh \<noteq> 3 then (Inl UnexpectedLogitsShape, w)
      else
        (let vocabSize = sh ! 2;
             start = (int (length ids) - 1) * vocabSize;
             endIdx = start + vocabSize
         in if 0 \<le> start \<and> start \<le> endIdx \<and> endIdx \<le> int (length raw) then
              (let lastLogits = take (nat (endIdx - start)) (drop (nat start) raw);
                   nextID = int (argmaxF32 lastLogits)
               in (Inr nextID, DestroyOutput w))
            else (Inl Panic, w)))"

text \<open>
  The first half of the loop body: tensor assembly, execution, output handling and the
  selection of the next token id. \<open>Run\<close> on a nil session would panic;
  \<open>Generate\<close> rejects a nil session before the loop.
\<close>

definition forward ::
  "runtime \<Rightarrow> ModelForCausalLM \<Rightarrow> int list \<Rightarrow> int list \<Rightarrow> world \<Rightarrow> (error + int) \<times> world" where
  "forward ok m ids msk w0 =
     (case tensorFromInt64s ok w0 ids [1, int (length ids)] of
        (None, w1) \<Rightarrow> (Inl CreateInputIds, w1)
      | (Some inputTensor, w1) \<Rightarrow>
          (case tensorFromInt64s ok w1 msk [1, int (length msk)] of
             (None, w2) \<Rightarrow> (Inl CreateAttentionMask, Destroy w2)
           | (Some maskTensor, w2) \<Rightarrow>
               (case assemble ok m ids inputTensor maskTensor (inputNames m) [] [] w2 of
                  (Inl e, w3) \<Rightarrow> (Inl e, w3)
                | (Inr (inputs, toDestroy), w3) \<Rightarrow>
                    (case session m of
                       None \<Rightarrow> (Inl Panic, w3)
                     | Some run \<Rightarrow>
                         (case run (runCalls w3) inputs of
                            None \<Rightarrow>
                              (Inl OnnxRun,
                               destroy_each toDestroy
                                 (Destroy (Destroy (w3\<lparr>runCalls := Suc (runCalls w3)\<rparr>))))
                          | Some outs \<Rightarrow>
                              (let outputs = take (length (outputNames m)) outs;
                                   w4 = w3\<lparr>runCalls := Suc (runCalls w3),
                                          outAllocated := outAllocated w3 +
                                            length (filter (\<lambda>v. v \<noteq> None) outputs)\<rparr>;
                                   w5 = destroy_each toDestroy (Destroy (Destroy w4))
                               in (case scan_outputs (outputNames m) outputs None w5 of
                                     (Inl e, w6) \<Rightarrow> (Inl e, w6)
                                   | (Inr None, w6) \<Rightarrow> (Inl LogitsMissing, w6)
                                   | (Inr (Some (sh, raw)), w6) \<Rightarrow> select_next ids sh raw w6)))))))"

text \<open>Text accounting: the delta text and the accumulated text after decoding.\<close>

definition text_accounting :: "Tokenizer option \<Rightarrow> int \<Rightarrow> string \<Rightarrow> string \<times> string" where
  "text_accounting tokenizer nextID full =
     (case tokenizer of
        None \<Rightarrow> ([], full)
      | Some decode \<Rightarrow>
          (case decode [nextID] of
             Inr txt \<Rightarrow> (txt, full @ txt)
           | Inl e \<Rightarrow> ([], full)))"

text \<open>The stop-sequence loop: the accumulated text, the delta text and \<open>stopHit\<close>.\<close>

fun stop_scan :: "string list \<Rightarrow> string \<Rightarrow> string \<Rightarrow> string \<times> string \<times> bool" where
  "stop_scan [] full delta = (full, delta, False)"
| "stop_scan (stop # stops) full delta =
     (if stop = [] then stop_scan stops full delta
      else (let idx = strings_Index full stop in
            if 0 \<le> idx then (take (nat idx) full, [], True)
            else stop_scan stops full delta))"

text \<open>The event of a step, as the loop builds it for the streamer.\<close>

definition step_event ::
  "ModelForCausalLM \<Rightarrow> Tokenizer option \<Rightarrow> GenerationOptions \<Rightarrow> loop_state \<Rightarrow> int \<Rightarrow> PipelineStreamEvent" where
  "step_event m tokenizer opts st nextID =
     (let (deltaText, full1) = text_accounting tokenizer nextID (fullText st);
          (full2, deltaText2, stopHit) = stop_scan (StopSequences opts) full1 deltaText;
          done = (0 \<le> EOS_TOKEN_ID (config m) \<and> nextID = EOS_TOKEN_ID (config m))
      in \<lparr>TokenID = nextID, DeltaText = deltaText2, FullText = full2,
          Step = int (step st), Done = (done \<or> stopHit)\<rparr>)"

datatype outcome = Failed error world | Broke loop_state | Next loop_state

text \<open>
  The second half of the loop body: sequence update, text accounting, stop evaluation,
  streaming and the two \<open>break\<close>s.
\<close>

definition advance ::
  "ModelForCausalLM \<Rightarrow> Tokenizer option \<Rightarrow> GenerationOptions \<Rightarrow> loop_state \<Rightarrow> int \<Rightarrow> outcome" where
  "advance m tokenizer opts st nextID =
     (let ev = step_event m tokenizer opts st nextID;
          st' = st\<lparr>generated := generated st @ [nextID],
                   curIDs := curIDs st @ [nextID],
                   curMask := curMask st @ [1],
                   fullText := FullText ev\<rparr>
      in (case Streamer opts of
            Some streamer \<Rightarrow>
              if \<not> streamer ev then Broke st'
              else if Done ev then Broke st' else Next st'
          | None \<Rightarrow> if Done ev then Broke st' else Next st'))"

definition loop_body ::
  "runtime \<Rightarrow> ModelForCausalLM \<Rightarrow> Tokenizer option \<Rightarrow> GenerationOptions \<Rightarrow>
   loop_state \<Rightarrow> outcome" where
  "loop_body ok m tokenizer opts st =
     (case forward ok m (curIDs st) (curMask st) (wld st) of
        (Inl e, w) \<Rightarrow> Failed e w
      | (Inr nextID, w) \<Rightarrow> advance m tokenizer opts (st\<lparr>wld := w\<rparr>) nextID)"

function generate_loop ::
  "runtime \<Rightarrow> ModelForCausalLM \<Rightarrow> Tokenizer option \<Rightarrow> GenerationOptions \<Rightarrow>
   loop_state \<Rightarrow> (error + int list list) \<times> world" where
  "generate_loop ok m tokenizer opts st =
     (if int (step st) < MaxNewTokens opts then
        (case loop_body ok m tokenizer opts st of
           Failed e w \<Rightarrow> (Inl e, w)
         | Broke st' \<Rightarrow> (Inr [generated st'], wld st')
         | Next st' \<Rightarrow> generate_loop ok m tokenizer opts (st'\<lparr>step := Suc (step st)\<rparr>))
      else (Inr [generated st], wld st))"
  by pat_completeness auto
termination
  by (relation "measure (\<lambda>(ok, m, tokenizer, opts, st). nat (MaxNewTokens opts - int (step st)))")
    auto

declare generate_loop.simps [simp del]

text \<open>The number of times the loop body is entered, counted along the same loop.\<close>

function trip_count ::
  "runtime \<Rightarrow> ModelForCausalLM \<Rightarrow> Tokenizer option \<Rightarrow> GenerationOptions \<Rightarrow>
   loop_state \<Rightarrow> nat" where
  "trip_count ok m tokenizer opts st =
     (if int (step st) < MaxNewTokens opts then
        (case loop_body ok m tokenizer opts st of
           Failed e w \<Rightarrow> 1
         | Broke st' \<Rightarrow> 1
         | Next st' \<Rightarrow> Suc (trip_count ok m tokenizer opts (st'\<lparr>step := Suc (step st)\<rparr>)))
      else 0)"
  by pat_completeness auto
termination
  by (relation "measure (\<lambda>(ok, m, tokenizer, opts, st). nat (MaxNewTokens opts - int (step st)))")
    auto

declare trip_count.simps [simp del]

definition init_state :: "int list \<Rightarrow> int list \<Rightarrow> world \<Rightarrow> loop_state" where
  "init_state ids msk w =
     \<lparr>curIDs = ids, curMask = msk, generated = [], fullText = [], step = 0, wld = w\<rparr>"

definition generateSimpleCausal ::
  "runtime \<Rightarrow> ModelForCausalLM \<Rightarrow> Tokenizer option \<Rightarrow> int list \<Rightarrow> int list \<Rightarrow>
   GenerationOptions \<Rightarrow> world \<Rightarrow> (error + int list list) \<times> world" where
  "generateSimpleCausal ok m tokenizer ids msk opts w =
     generate_loop ok m tokenizer opts (init_state ids msk w)"

text \<open>Generate, lines 138-140: a non-positive \<open>MaxNewTokens\<close> becomes 128.\<close>

definition normalizeMaxNewTokens :: "GenerationOptions \<Rightarrow> GenerationOptions" where
  "normalizeMaxNewTokens opts =
     (if MaxNewTokens opts \<le> 0 then opts\<lparr>MaxNewTokens := 128\<rparr> else opts)"

definition Generate ::
  "runtime \<Rightarrow> ModelForCausalLM \<Rightarrow> Tokenizer option \<Rightarrow> int list list \<Rightarrow> int list list \<Rightarrow>
   GenerationOptions \<Rightarrow> world \<Rightarrow> (error + int list list) \<times> world" where
  "Generate ok m tokenizer inputIDs attentionMask opts w =
     (if tokenizer = None then (Inl TokenizerNil, w)
      else if session m = None then (Inl SessionNil, w)
      else if length inputIDs \<noteq> 1 \<or> length attentionMask \<noteq> 1 then (Inl BatchNot1, w)
      else
        (let opts' = normalizeMaxNewTokens opts
         in (case ioPreset m of
               IOPresetSimpleCausal \<Rightarrow>
                 generateSimpleCausal ok m tokenizer (inputIDs ! 0) (attentionMask ! 0) opts' w
             | IOPresetLFM2 \<Rightarrow>
                 generateSimpleCausal ok m tokenizer (inputIDs ! 0) (attentionMask ! 0) opts' w
             | IOPresetAuto \<Rightarrow>
                 generateSimpleCausal ok m tokenizer (inputIDs ! 0) (attentionMask ! 0) opts' w)))"

text \<open>
  For stating properties of a run: the state at the head of an iteration reached after
  \<open>j\<close> iterations that all ran to their end and went on (no error, no \<open>break\<close>),
  if there is one.
\<close>

fun run_steps ::
  "runtime \<Rightarrow> ModelForCausalLM \<Rightarrow> Tokenizer option \<Rightarrow> GenerationOptions \<Rightarrow>
   nat \<Rightarrow> loop_state \<Rightarrow> loop_state option" where
  "run_steps ok m tokenizer opts 0 st = Some st"
| "run_steps ok m tokenizer opts (Suc j) st =
     (case loop_body ok m tokenizer opts st of
        Next st' \<Rightarrow> run_steps ok m tokenizer opts j (st'\<lparr>step := Suc (step st)\<rparr>)
      | Broke st' \<Rightarrow> None
      | Failed e w \<Rightarrow> None)"

text \<open>The state after the sequence update of a step that selected \<open>nextID\<close>.\<close>

definition appended :: "loop_state \<Rightarrow> int \<Rightarrow> string \<Rightarrow> loop_state" where
  "appended st nextID txt =
     st\<lparr>generated := generated st @ [nextID], curIDs := curIDs st @ [nextID],
        curMask := curMask st @ [1], fullText := txt\<rparr>"

section \<open>Call options of the pipeline's generator (pipeline.go)\<close>

text \<open>
  The values of a \<open>map[string]any\<close> that the generator distinguishes. A nil map has no
  keys. A \<open>float64\<close> is NaN, an infinity or a finite value, given by the real number it
  stands for. \<open>float64_to_int\<close> is Go's conversion \<open>int(t)\<close> to the 64-bit \<open>int\<close>: it
  truncates towards zero when the truncated value is an \<open>int\<close> (\<open>fits_int\<close>); for any
  other value (NaN, an infinity, a value out of range) Go leaves the result to the
  implementation, which is the parameter \<open>platform\<close> (on amd64 it is the least \<open>int\<close>).
  An \<open>int\<close> held by the map is one of the 64-bit integers; nothing below depends on
  the bound.
\<close>

datatype float64 = NaN64 | NegInf64 | Fin64 real | PosInf64

definition truncate :: "real \<Rightarrow> int" where
  "truncate x = (if 0 \<le> x then \<lfloor>x\<rfloor> else \<lceil>x\<rceil>)"

definition fits_int :: "float64 \<Rightarrow> bool" where
  "fits_int t =
     (case t of
        Fin64 x \<Rightarrow> - (2 ^ 63) \<le> truncate x \<and> truncate x < 2 ^ 63
      | _ \<Rightarrow> False)"

datatype any =
    AnyNil
  | AnyInt int
  | AnyFloat64 float64
  | AnyBool bool
  | AnyString string
  | AnyStrings "string list"
  | AnyList "any list"
  | AnyStreamer "PipelineStreamEvent \<Rightarrow> bool"
  | AnyOther

definition float64_to_int :: "(float64 \<Rightarrow> int) \<Rightarrow> float64 \<Rightarrow> int" where
  "float64_to_int platform t =
     (case t of
        Fin64 x \<Rightarrow> if fits_int t then truncate x else platform t
      | _ \<Rightarrow> platform t)"

fun nonempty_strings :: "any list \<Rightarrow> string list" where
  "nonempty_strings [] = []"
| "nonempty_strings (AnyString s # xs) =
     (if s \<noteq> [] then s # nonempty_strings xs else nonempty_strings xs)"
| "nonempty_strings (x # xs) = nonempty_strings xs"

fun parseStopSequences :: "any \<Rightarrow> string list" where
  "parseStopSequences AnyNil = []"
| "parseStopSequences (AnyString t) = (if t = [] then [] else [t])"
| "parseStopSequences (AnyStrings t) = t"
| "parseStopSequences (AnyList t) = nonempty_strings t"
| "parseStopSequences v = []"

definition call_maxNewTokens :: "(float64 \<Rightarrow> int) \<Rightarrow> (string \<Rightarrow> any option) \<Rightarrow> int" where
  "call_maxNewTokens platform callOptions =
     (case callOptions ''max_new_tokens'' of
        Some (AnyInt t) \<Rightarrow> t
      | Some (AnyFloat64 t) \<Rightarrow> float64_to_int platform t
      | _ \<Rightarrow> 32)"

definition call_doSample :: "(string \<Rightarrow> any option) \<Rightarrow> bool" where
  "call_doSample callOptions =
     (case callOptions ''do_sample'' of Some (AnyBool b) \<Rightarrow> b | _ \<Rightarrow> False)"

definition call_streamer :: "(string \<Rightarrow> any option) \<Rightarrow> (PipelineStreamEvent \<Rightarrow> bool) option" where
  "call_streamer callOptions =
     (case callOptions ''streamer'' of Some (AnyStreamer fn) \<Rightarrow> Some fn | _ \<Rightarrow> None)"

definition call_stopSeqs :: "Config \<Rightarrow> (string \<Rightarrow> any option) \<Rightarrow> string list" where
  "call_stopSeqs cfg callOptions =
     (let stopSeqs = parseStopSequences
                       (case callOptions ''stop'' of None \<Rightarrow> AnyNil | Some v \<Rightarrow> v);
          stopSeqs = (if length stopSeqs = 0 \<and> 0 < length (StopStrings cfg)
                      then StopStrings cfg else stopSeqs)
      in if length stopSeqs = 0
         then [[CHR 0x0A] @ ''User:'', [CHR 0x0A] @ ''user:'',
               [CHR 0x0A] @ ''Assistant:'', [CHR 0x0A] @ ''assistant:'']
         else stopSeqs)"

text \<open>The \<open>genOpts\<close> that the generator closure hands to \<open>Generate\<close>.\<close>

definition generator_genOpts ::
  "(float64 \<Rightarrow> int) \<Rightarrow> Config \<Rightarrow> (string \<Rightarrow> any option) \<Rightarrow> GenerationOptions" where
  "generator_genOpts platform cfg callOptions =
     \<lparr>MaxNewTokens = call_maxNewTokens platform callOptions,
      DoSample = call_doSample callOptions,
      Streamer = call_streamer callOptions,
      StopSequences = call_stopSeqs cfg callOptions\<rparr>"

section \<open>Test doubles\<close>

text \<open>
  Concrete engines, models and options on which the theorems below are evaluated: a
  runtime whose every tensor construction succeeds, one whose fourth construction
  fails, a session that scores token 1 highest at every position of a two-word
  vocabulary, a graph that declares two optional inputs, call options of the generator,
  and the conversion of amd64 for a \<open>float64\<close> that is not an \<open>int\<close>.
\<close>

definition world0 :: world where
  "world0 = \<lparr>newCalls = 0, constructed = 0, destroyed = 0, runCalls = 0,
             outAllocated = 0, outDestroyed = 0\<rparr>"

definition ok_always :: runtime where
  "ok_always = \<lparr>newTensorOk = (\<lambda>n t. True), maxAlloc = 2 ^ 48\<rparr>"

definition ok_first3 :: runtime where
  "ok_first3 = \<lparr>newTensorOk = (\<lambda>n t. n < 3), maxAlloc = 2 ^ 48\<rparr>"

definition demo_session :: session where
  "demo_session n inputs =
     (case inputs of
        [] \<Rightarrow> None
      | t # rest \<Rightarrow>
          (case tdata t of
             Int64Data ids \<Rightarrow>
               Some [Some (TensorF32 [1, int (length ids), 2]
                             (concat (map (\<lambda>i. [Fin 0, Fin 1]) ids)))]
           | Float32Data xs \<Rightarrow> None))"

definition demo_info :: "string \<Rightarrow> InputOutputInfo option" where
  "demo_info name =
     (if name = ''past_conv.0'' then
        Some \<lparr>Name = ''past_conv.0'', Dimensions = [- 1, 4, 3], DataType = ElemFloat\<rparr>
      else if name = ''foo'' then
        Some \<lparr>Name = ''foo'', Dimensions = [- 1], DataType = ElemFloat\<rparr>
      else None)"

definition demo_config :: "int \<Rightarrow> Config" where
  "demo_config eos =
     \<lparr>modelType = ''demo'', vocabSize = 2, eosTokenID = eos, bosTokenID = - 1,
      padTokenID = - 1, numHiddenLayers = 0, numAttentionHeads = 0, numKeyValueHeads = 0,
      hiddenSize = 0, convLCache = 0, layerTypes = [], stopStrings = []\<rparr>"

definition demo_model :: "int \<Rightarrow> string list \<Rightarrow> ModelForCausalLM" where
  "demo_model eos names =
     \<lparr>modelID = ''demo'', config = demo_config eos, session = Some demo_session,
      ioPreset = IOPresetAuto, inputNames = names, outputNames = [''logits''],
      dtype = ''q4'', inputInfo = demo_info\<rparr>"

definition demo_decode :: Tokenizer where
  "demo_decode ids = Inr ''x''"

definition failing_decode :: Tokenizer where
  "failing_decode ids = Inl DecodeError"

definition demo_opts :: "int \<Rightarrow> GenerationOptions" where
  "demo_opts n = \<lparr>MaxNewTokens = n, DoSample = False, Streamer = None, StopSequences = []\<rparr>"

definition half_options :: "string \<Rightarrow> any option" where
  "half_options key =
     (if key = ''max_new_tokens'' then Some (AnyFloat64 (Fin64 (1 / 2))) else None)"

definition huge_options :: "string \<Rightarrow> any option" where
  "huge_options key =
     (if key = ''max_new_tokens'' then Some (AnyFloat64 (Fin64 (10 ^ 30))) else None)"

definition platform_amd64 :: "float64 \<Rightarrow> int" where
  "platform_amd64 t = - (2 ^ 63)"

definition no_options :: "string \<Rightarrow> any option" where
  "no_options key = None"

section \<open>Properties of the string helpers\<close>

lemma has_prefix_iff: "has_prefix s p \<longleftrightarrow> (\<exists>r. s = p @ r)"
  by (induction s p rule: has_prefix.induct) auto

lemma strings_Index_lower: "- 1 \<le> strings_Index s sub"
  by (induction s) (auto simp: Let_def)

lemma strings_Index_upper: "strings_Index s sub \<le> int (length s)"
  by (induction s) (auto simp: Let_def)

lemma strings_Index_found:
  "0 \<le> strings_Index s sub \<Longrightarrow> \<exists>r. s = take (nat (strings_Index s sub)) s @ sub @ r"
proof (induction s)
  case Nil
  then show ?case by (auto split: if_splits)
next
  case (Cons c s)
  show ?case
  proof (cases "has_prefix (c # s) sub")
    case True
    then show ?thesis by (simp add: has_prefix_iff)
  next
    case False
    with Cons.prems have nn: "0 \<le> strings_Index s sub"
      by (auto simp: Let_def split: if_splits)
    with Cons.IH obtain r where r: "s = take (nat (strings_Index s sub)) s @ sub @ r" by blast
    from False nn have idx: "strings_Index (c # s) sub = strings_Index s sub + 1"
      by (simp add: Let_def)
    have "nat (strings_Index s sub + 1) = Suc (nat (strings_Index s sub))" using nn by simp
    with idx r show ?thesis by (metis append_Cons take_Suc_Cons)
  qed
qed

lemma strings_Index_first:
  "s = a @ sub @ b \<Longrightarrow> 0 \<le> strings_Index s sub \<and> strings_Index s sub \<le> int (length a)"
proof (induction s arbitrary: a)
  case Nil
  then show ?case by simp
next
  case (Cons c s)
  show ?case
  proof (cases "has_prefix (c # s) sub")
    case True
    then show ?thesis by simp
  next
    case False
    then have "a \<noteq> []" using Cons.prems by (auto simp: has_prefix_iff)
    then obtain a' where a: "a = c # a'" using Cons.prems by (cases a) auto
    with Cons.prems have "s = a' @ sub @ b" by simp
    from Cons.IH[OF this] False a show ?thesis by (auto simp: Let_def)
  qed
qed

section \<open>Schema resolution\<close>

lemma itoa_digits: "itoa 0 = ''0''" "itoa 1 = ''1''" "itoa 2 = ''2''"
  by (simp_all add: itoa.simps digit_char_def)

lemma lfm2_outputs_eq:
  "lfm2_outputs names outs =
     outs @ map (\<lambda>n. ''present.'' @ n)
       (filter (\<lambda>n. n \<noteq> ''input_ids'' \<and> n \<noteq> ''attention_mask'' \<and> n \<noteq> ''position_ids'') names)"
  by (induction names arbitrary: outs) auto

text \<open>
  C3. For a configuration whose layer types are full attention, conv, full attention,
  \<open>lfm2IONames\<close> resolves the inputs to the three core names followed by the key and
  value slots of layer 0, the conv slot of layer 1 and the key and value slots of layer
  2, and the outputs to \<open>logits\<close> followed by the non-core inputs, each prefixed with
  \<open>present.\<close>, in the order of the inputs.
\<close>

theorem lfm2IONames_example:
  "lfm2IONames (Some (c\<lparr>layerTypes := [''full_attention'', ''conv'', ''full_attention'']\<rparr>)) =
     Inr ([''input_ids'', ''attention_mask'', ''position_ids'',
           ''past_key_values.0.key'', ''past_key_values.0.value'',
           ''past_conv.1'',
           ''past_key_values.2.key'', ''past_key_values.2.value''],
          [''logits'',
           ''present.past_key_values.0.key'', ''present.past_key_values.0.value'',
           ''present.past_conv.1'',
           ''present.past_key_values.2.key'', ''present.past_key_values.2.value''])"
  by (simp add: lfm2IONames_def LayerTypes_def itoa.simps digit_char_def)

section \<open>Stop strings\<close>






section \<open>Zero-filled optional inputs\<close>

lemma zeroTensorForInput_Inr:
  assumes "inputInfo m name = Some info"
    and "zeroTensorForInput ok m w name seqLen = (Inr t, w')"
  shows "tshape t = zero_shape (strings_Contains name ''past'' \<or> strings_Contains name ''cache'')
           seqLen (Dimensions info)"
    and "0 \<le> shape_count (tshape t) 1"
    and "tdata t =
          (if DataType info = ElemInt64
           then Int64Data (replicate (nat (shape_count (tshape t) 1)) 0)
           else Float32Data (replicate (nat (shape_count (tshape t) 1)) (Fin 0)))"
    and "w' = w\<lparr>newCalls := Suc (newCalls w), constructed := Suc (constructed w)\<rparr>"
  using assms
  by (auto simp: zeroTensorForInput_def tensorFromInt64s_def tensorFromFloat32s_def Let_def
      split: if_splits TensorElementDataType.splits)

lemma zero_shape_length: "length (zero_shape isCache seqLen dims) = length dims"
  by (simp add: zero_shape_def)

lemma zero_shape_nth:
  "i < length dims \<Longrightarrow>
   zero_shape isCache seqLen dims ! i = zero_dim isCache seqLen (length dims) i (dims ! i)"
  by (simp add: zero_shape_def)

lemma zero_foo_eval:
  "zeroTensorForInput ok_always (demo_model (- 1) []) world0 ''foo'' 5 =
     (Inr \<lparr>tshape = [5], tdata = Float32Data [Fin 0, Fin 0, Fin 0, Fin 0, Fin 0]\<rparr>,
      \<lparr>newCalls = 1, constructed = 1, destroyed = 0, runCalls = 0,
       outAllocated = 0, outDestroyed = 0\<rparr>)"
  by (simp add: zeroTensorForInput_def demo_model_def demo_info_def strings_Contains_def
      zero_shape_def zero_dim_def wrap64_def tensorFromFloat32s_def ok_always_def world0_def
      Let_def eval_nat_numeral)

text \<open>
  C7 (as amended). For a declared input slot for which \<open>zeroTensorForInput\<close> builds
  a tensor, the shape has the rank of the declared dimensions and, index by index:
  a positive declared dimension is kept; an undefined (non-positive) leading dimension
  becomes 1, except on a non-cache input of rank 1 with a positive sequence length,
  where it becomes the sequence length; an undefined non-leading dimension becomes 0 on
  a name that contains \<open>past\<close> or \<open>cache\<close>; on any other name it becomes the
  sequence length when it is the trailing dimension and the sequence length is
  positive, and 1 otherwise. The data is all zeros, as many as the (wrapped) product of
  the shape: \<open>int64\<close> zeros when the declared element type is \<open>int64\<close>, \<open>float32\<close>
  zeros for every other declared type.
\<close>

theorem zeroTensorForInput_shape:
  assumes "inputInfo m name = Some info"
    and "zeroTensorForInput ok m w name seqLen = (Inr t, w')"
    and "isCache = (strings_Contains name ''past'' \<or> strings_Contains name ''cache'')"
    and "dims = Dimensions info"
  shows "length (tshape t) = length dims \<and>
         (\<forall>i<length dims.
            (0 < dims ! i \<longrightarrow> tshape t ! i = dims ! i) \<and>
            (dims ! i \<le> 0 \<and> i = 0 \<longrightarrow>
               tshape t ! i = (if \<not> isCache \<and> length dims = 1 \<and> 0 < seqLen then seqLen else 1)) \<and>
            (dims ! i \<le> 0 \<and> 0 < i \<and> isCache \<longrightarrow> tshape t ! i = 0) \<and>
            (dims ! i \<le> 0 \<and> 0 < i \<and> \<not> isCache \<longrightarrow>
               tshape t ! i = (if Suc i = length dims \<and> 0 < seqLen then seqLen else 1))) \<and>
         (\<exists>n. int n = shape_count (tshape t) 1 \<and>
              tdata t = (if DataType info = ElemInt64 then Int64Data (replicate n 0)
                         else Float32Data (replicate n (Fin 0))))"
proof -
  note r = zeroTensorForInput_Inr[OF assms(1,2)]
  have sh: "tshape t = zero_shape isCache seqLen dims" using r(1) assms(3,4) by simp
  have len: "length (tshape t) = length dims" using sh by (simp add: zero_shape_length)
  have dimsI: "\<forall>i<length dims.
            (0 < dims ! i \<longrightarrow> tshape t ! i = dims ! i) \<and>
            (dims ! i \<le> 0 \<and> i = 0 \<longrightarrow>
               tshape t ! i = (if \<not> isCache \<and> length dims = 1 \<and> 0 < seqLen then seqLen else 1)) \<and>
            (dims ! i \<le> 0 \<and> 0 < i \<and> isCache \<longrightarrow> tshape t ! i = 0) \<and>
            (dims ! i \<le> 0 \<and> 0 < i \<and> \<not> isCache \<longrightarrow>
               tshape t ! i = (if Suc i = length dims \<and> 0 < seqLen then seqLen else 1))"
  proof (intro allI impI)
    fix i assume i: "i < length dims"
    have nth: "tshape t ! i = zero_dim isCache seqLen (length dims) i (dims ! i)"
      using sh i by (simp add: zero_shape_nth)
    have last: "(int i = int (length dims) - 1) = (Suc i = length dims)" using i by auto
    show "(0 < dims ! i \<longrightarrow> tshape t ! i = dims ! i) \<and>
            (dims ! i \<le> 0 \<and> i = 0 \<longrightarrow>
               tshape t ! i = (if \<not> isCache \<and> length dims = 1 \<and> 0 < seqLen then seqLen else 1)) \<and>
            (dims ! i \<le> 0 \<and> 0 < i \<and> isCache \<longrightarrow> tshape t ! i = 0) \<and>
            (dims ! i \<le> 0 \<and> 0 < i \<and> \<not> isCache \<longrightarrow>
               tshape t ! i = (if Suc i = length dims \<and> 0 < seqLen then seqLen else 1))"
      unfolding nth zero_dim_def Let_def last by auto
  qed
  have dat: "\<exists>n. int n = shape_count (tshape t) 1 \<and>
              tdata t = (if DataType info = ElemInt64 then Int64Data (replicate n 0)
                         else Float32Data (replicate n (Fin 0)))"
    using r(2,3) by (intro exI[of _ "nat (shape_count (tshape t) 1)"]) simp
  from len dimsI dat show ?thesis by blast
qed

theorem zeroTensorForInput_shape_witness:
  "length (tshape \<lparr>tshape = [5], tdata = Float32Data [Fin 0, Fin 0, Fin 0, Fin 0, Fin 0]\<rparr>) =
     length [- 1 :: int] \<and>
   tshape \<lparr>tshape = [5], tdata = Float32Data [Fin 0, Fin 0, Fin 0, Fin 0, Fin 0]\<rparr> ! 0 = 5"
proof -
  have h1: "inputInfo (demo_model (- 1) []) ''foo'' =
     Some \<lparr>Name = ''foo'', Dimensions = [- 1], DataType = ElemFloat\<rparr>"
    by (simp add: demo_model_def demo_info_def)
  have h3: "False = (strings_Contains ''foo'' ''past'' \<or> strings_Contains ''foo'' ''cache'')"
    by (simp add: strings_Contains_def)
  have h4: "[- 1] = Dimensions \<lparr>Name = ''foo'', Dimensions = [- 1], DataType = ElemFloat\<rparr>"
    by simp
  from zeroTensorForInput_shape[OF h1 zero_foo_eval h3 h4]
  show ?thesis by simp
qed

text \<open>
  The claim as stated fails on the slot \<open>foo\<close>, declared with the single undefined
  dimension \<open>[-1]\<close>, at sequence length 5: its leading dimension becomes 5, not 1.
\<close>

theorem zeroTensorForInput_leading_counterexample:
  "inputInfo (demo_model (- 1) []) ''foo'' =
     Some \<lparr>Name = ''foo'', Dimensions = [- 1], DataType = ElemFloat\<rparr> \<and>
   fst (zeroTensorForInput ok_always (demo_model (- 1) []) world0 ''foo'' 5) =
     Inr \<lparr>tshape = [5], tdata = Float32Data [Fin 0, Fin 0, Fin 0, Fin 0, Fin 0]\<rparr> \<and>
   [5] \<noteq> [1 :: int]"
  by (simp add: zero_foo_eval) (simp add: demo_model_def demo_info_def)

section \<open>The decoding loop\<close>

subsection \<open>Calls of Run\<close>

lemma tensorFromInt64s_runCalls:
  "tensorFromInt64s ok w xs sh = (r, w') \<Longrightarrow> runCalls w' = runCalls w"
  by (auto simp: tensorFromInt64s_def Let_def split: if_splits)

lemma tensorFromFloat32s_runCalls:
  "tensorFromFloat32s ok w xs sh = (r, w') \<Longrightarrow> runCalls w' = runCalls w"
  by (auto simp: tensorFromFloat32s_def Let_def split: if_splits)

lemma Destroy_runCalls: "runCalls (Destroy w) = runCalls w"
  by (simp add: Destroy_def)

lemma DestroyOutput_runCalls: "runCalls (DestroyOutput w) = runCalls w"
  by (simp add: DestroyOutput_def)

lemma destroy_each_runCalls: "runCalls (destroy_each vs w) = runCalls w"
  by (induction vs arbitrary: w) (simp_all add: Destroy_runCalls)

lemma zeroTensorForInput_runCalls:
  "zeroTensorForInput ok m w name seqLen = (r, w') \<Longrightarrow> runCalls w' = runCalls w"
  by (auto simp: zeroTensorForInput_def Let_def
      split: option.splits if_splits TensorElementDataType.splits prod.splits
      dest: tensorFromInt64s_runCalls tensorFromFloat32s_runCalls)

lemma assemble_runCalls:
  "assemble ok m ids it mt names inputs toDestroy w = (r, w') \<Longrightarrow> runCalls w' = runCalls w"
proof (induction names arbitrary: inputs toDestroy w)
  case Nil
  then show ?case by simp
next
  case (Cons name names)
  then show ?case
    by (auto simp: Destroy_runCalls destroy_each_runCalls
        split: if_splits prod.splits option.splits sum.splits
        dest: tensorFromInt64s_runCalls zeroTensorForInput_runCalls)
qed

lemma scan_outputs_runCalls:
  "scan_outputs names outs lg w = (r, w') \<Longrightarrow> runCalls w' = runCalls w"
proof (induction names arbitrary: outs lg w)
  case Nil
  then show ?case by simp
next
  case (Cons name names)
  then show ?case
    by (auto simp: Let_def DestroyOutput_runCalls
        split: if_splits option.splits ort_value.splits list.splits)
qed

lemma select_next_runCalls:
  "select_next ids sh raw w = (r, w') \<Longrightarrow> runCalls w' = runCalls w"
  by (auto simp: select_next_def Let_def DestroyOutput_runCalls split: if_splits)

lemma forward_runCalls_le:
  assumes "forward ok m ids msk w = (r, w')"
  shows "runCalls w' \<le> Suc (runCalls w)"
  using assms
  by (auto simp: forward_def Let_def Destroy_runCalls destroy_each_runCalls
      split: prod.splits option.splits sum.splits
      dest!: tensorFromInt64s_runCalls assemble_runCalls scan_outputs_runCalls
        select_next_runCalls)

lemma forward_runCalls_Inr:
  assumes "forward ok m ids msk w = (Inr t, w')"
  shows "runCalls w' = Suc (runCalls w)"
  using assms
  by (auto simp: forward_def Let_def Destroy_runCalls destroy_each_runCalls
      split: prod.splits option.splits sum.splits
      dest!: tensorFromInt64s_runCalls assemble_runCalls scan_outputs_runCalls
        select_next_runCalls)

subsection \<open>One iteration\<close>

lemma advance_cases:
  "advance m tokenizer opts st nextID =
     (let ev = step_event m tokenizer opts st nextID in
      if Done ev \<or> (\<exists>f. Streamer opts = Some f \<and> \<not> f ev)
      then Broke (appended st nextID (FullText ev))
      else Next (appended st nextID (FullText ev)))"
  by (auto simp: advance_def appended_def Let_def split: option.splits)

lemma loop_body_Failed:
  "loop_body ok m tokenizer opts st = Failed e w' \<longleftrightarrow>
     forward ok m (curIDs st) (curMask st) (wld st) = (Inl e, w')"
  by (auto simp: loop_body_def advance_cases Let_def split: prod.splits sum.splits)

lemma loop_body_Inr:
  assumes "forward ok m (curIDs st) (curMask st) (wld st) = (Inr nextID, w')"
  shows "loop_body ok m tokenizer opts st = advance m tokenizer opts (st\<lparr>wld := w'\<rparr>) nextID"
  using assms by (simp add: loop_body_def)

lemma loop_body_Next:
  assumes "loop_body ok m tokenizer opts st = Next st'"
  shows "\<exists>nextID w'. forward ok m (curIDs st) (curMask st) (wld st) = (Inr nextID, w') \<and>
           st' = appended (st\<lparr>wld := w'\<rparr>) nextID
                   (FullText (step_event m tokenizer opts (st\<lparr>wld := w'\<rparr>) nextID)) \<and>
           \<not> Done (step_event m tokenizer opts (st\<lparr>wld := w'\<rparr>) nextID) \<and>
           (\<forall>f. Streamer opts = Some f \<longrightarrow> f (step_event m tokenizer opts (st\<lparr>wld := w'\<rparr>) nextID))"
  using assms
  by (auto simp: loop_body_def advance_cases Let_def split: prod.splits sum.splits if_splits)

lemma loop_body_Broke:
  assumes "loop_body ok m tokenizer opts st = Broke st'"
  shows "\<exists>nextID w'. forward ok m (curIDs st) (curMask st) (wld st) = (Inr nextID, w') \<and>
           st' = appended (st\<lparr>wld := w'\<rparr>) nextID
                   (FullText (step_event m tokenizer opts (st\<lparr>wld := w'\<rparr>) nextID))"
  using assms
  by (auto simp: loop_body_def advance_cases Let_def split: prod.splits sum.splits if_splits)

lemma step_event_MaxNewTokens [simp]:
  "step_event m tokenizer (opts\<lparr>MaxNewTokens := n\<rparr>) st nextID = step_event m tokenizer opts st nextID"
  by (simp add: step_event_def)

lemma step_event_DoSample [simp]:
  "step_event m tokenizer (opts\<lparr>DoSample := b\<rparr>) st nextID = step_event m tokenizer opts st nextID"
  by (simp add: step_event_def)

lemma loop_body_MaxNewTokens [simp]:
  "loop_body ok m tokenizer (opts\<lparr>MaxNewTokens := n\<rparr>) st = loop_body ok m tokenizer opts st"
  by (simp add: loop_body_def advance_def split: prod.splits sum.splits)

lemma loop_body_DoSample [simp]:
  "loop_body ok m tokenizer (opts\<lparr>DoSample := b\<rparr>) st = loop_body ok m tokenizer opts st"
  by (simp add: loop_body_def advance_def split: prod.splits sum.splits)

lemma run_steps_MaxNewTokens [simp]:
  "run_steps ok m tokenizer (opts\<lparr>MaxNewTokens := n\<rparr>) j st = run_steps ok m tokenizer opts j st"
  by (induction j arbitrary: st) (simp_all split: outcome.splits)

subsection \<open>Iterations that go on\<close>

lemma run_steps_facts:
  assumes "run_steps ok m tokenizer opts j st = Some st'"
  shows "step st' = step st + j \<and>
         length (generated st') = length (generated st) + j \<and>
         length (curIDs st') = length (curIDs st) + j \<and>
         curMask st' = curMask st @ replicate j 1 \<and>
         runCalls (wld st') = runCalls (wld st) + j"
  using assms
proof (induction j arbitrary: st)
  case 0
  then show ?case by simp
next
  case (Suc j)
  from Suc.prems obtain s1 where b: "loop_body ok m tokenizer opts st = Next s1"
    and r: "run_steps ok m tokenizer opts j (s1\<lparr>step := Suc (step st)\<rparr>) = Some st'"
    by (auto split: outcome.splits)
  from loop_body_Next[OF b] obtain nextID w' where
    f: "forward ok m (curIDs st) (curMask st) (wld st) = (Inr nextID, w')"
    and s1: "s1 = appended (st\<lparr>wld := w'\<rparr>) nextID
                   (FullText (step_event m tokenizer opts (st\<lparr>wld := w'\<rparr>) nextID))"
    by blast
  from forward_runCalls_Inr[OF f] have rc: "runCalls w' = Suc (runCalls (wld st))" .
  from Suc.IH[OF r] s1 rc show ?case
    by (simp add: appended_def replicate_app_Cons_same)
qed

lemma generate_loop_run_steps:
  assumes "run_steps ok m tokenizer opts j st = Some st'"
    and "int (step st) + int j \<le> MaxNewTokens opts"
  shows "generate_loop ok m tokenizer opts st = generate_loop ok m tokenizer opts st'"
  using assms
proof (induction j arbitrary: st)
  case 0
  then show ?case by simp
next
  case (Suc j)
  from Suc.prems(1) obtain s1 where b: "loop_body ok m tokenizer opts st = Next s1"
    and r: "run_steps ok m tokenizer opts j (s1\<lparr>step := Suc (step st)\<rparr>) = Some st'"
    by (auto split: outcome.splits)
  from Suc.prems(2) have lt: "int (step st) < MaxNewTokens opts" by simp
  have "generate_loop ok m tokenizer opts st =
        generate_loop ok m tokenizer opts (s1\<lparr>step := Suc (step st)\<rparr>)"
    using lt b by (subst generate_loop.simps) simp
  also have "\<dots> = generate_loop ok m tokenizer opts st'"
    using Suc.IH[OF r] Suc.prems(2) by simp
  finally show ?case .
qed

lemma generate_loop_exhausted:
  "MaxNewTokens opts \<le> int (step st) \<Longrightarrow>
   generate_loop ok m tokenizer opts st = (Inr [generated st], wld st)"
  by (subst generate_loop.simps) simp

lemma generate_loop_bound:
  "generate_loop ok m tokenizer opts st = (r, w') \<Longrightarrow>
   runCalls w' \<le> runCalls (wld st) + nat (MaxNewTokens opts - int (step st)) \<and>
   (\<forall>g. r = Inr g \<longrightarrow>
      (\<exists>gen. g = [gen] \<and>
         length gen \<le> length (generated st) + nat (MaxNewTokens opts - int (step st))))"
proof (induction ok m tokenizer opts st arbitrary: r w' rule: generate_loop.induct)
  case (1 ok m tokenizer opts st)
  show ?case
  proof (cases "int (step st) < MaxNewTokens opts")
    case False
    with "1.prems" show ?thesis by (subst (asm) generate_loop.simps) auto
  next
    case True
    then have pos: "nat (MaxNewTokens opts - int (step st)) =
        Suc (nat (MaxNewTokens opts - int (Suc (step st))))" by simp
    show ?thesis
    proof (cases "loop_body ok m tokenizer opts st")
      case (Failed e w1)
      then have f: "forward ok m (curIDs st) (curMask st) (wld st) = (Inl e, w1)"
        by (simp add: loop_body_Failed)
      from "1.prems" True Failed have "r = Inl e" "w' = w1"
        by (subst (asm) generate_loop.simps, simp)+
      with forward_runCalls_le[OF f] pos show ?thesis by simp
    next
      case (Broke s1)
      from loop_body_Broke[OF Broke] obtain nextID w1 where
        f: "forward ok m (curIDs st) (curMask st) (wld st) = (Inr nextID, w1)"
        and s1: "s1 = appended (st\<lparr>wld := w1\<rparr>) nextID
                   (FullText (step_event m tokenizer opts (st\<lparr>wld := w1\<rparr>) nextID))"
        by blast
      from "1.prems" True Broke have "r = Inr [generated s1]" "w' = wld s1"
        by (subst (asm) generate_loop.simps, simp)+
      with forward_runCalls_Inr[OF f] s1 pos show ?thesis by (simp add: appended_def)
    next
      case (Next s1)
      from loop_body_Next[OF Next] obtain nextID w1 where
        f: "forward ok m (curIDs st) (curMask st) (wld st) = (Inr nextID, w1)"
        and s1: "s1 = appended (st\<lparr>wld := w1\<rparr>) nextID
                   (FullText (step_event m tokenizer opts (st\<lparr>wld := w1\<rparr>) nextID))"
        by blast
      from "1.prems" True Next
      have g: "generate_loop ok m tokenizer opts (s1\<lparr>step := Suc (step st)\<rparr>) = (r, w')"
        by (subst (asm) generate_loop.simps) simp
      from "1.IH"[OF True Next g] forward_runCalls_Inr[OF f] s1 pos
      show ?thesis by (simp add: appended_def)
    qed
  qed
qed

lemma trip_count_le:
  "trip_count ok m tokenizer opts st \<le> nat (MaxNewTokens opts - int (step st))"
proof (induction ok m tokenizer opts st rule: trip_count.induct)
  case (1 ok m tokenizer opts st)
  show ?case
  proof (cases "int (step st) < MaxNewTokens opts")
    case False
    then show ?thesis by (subst trip_count.simps) simp
  next
    case True
    then have pos: "nat (MaxNewTokens opts - int (step st)) =
        Suc (nat (MaxNewTokens opts - int (Suc (step st))))" by simp
    show ?thesis
    proof (cases "loop_body ok m tokenizer opts st")
      case (Next s1)
      from "1.IH"[OF True Next] True Next pos show ?thesis
        by (subst trip_count.simps) simp
    next
      case (Failed e w1)
      with True pos show ?thesis by (subst trip_count.simps) simp
    next
      case (Broke s1)
      with True pos show ?thesis by (subst trip_count.simps) simp
    qed
  qed
qed

lemma trip_count_run_steps:
  assumes "run_steps ok m tokenizer opts j st = Some st'"
    and "int (step st) + int j \<le> MaxNewTokens opts"
  shows "trip_count ok m tokenizer opts st = j + trip_count ok m tokenizer opts st'"
  using assms
proof (induction j arbitrary: st)
  case 0
  then show ?case by simp
next
  case (Suc j)
  from Suc.prems(1) obtain s1 where b: "loop_body ok m tokenizer opts st = Next s1"
    and r: "run_steps ok m tokenizer opts j (s1\<lparr>step := Suc (step st)\<rparr>) = Some st'"
    by (auto split: outcome.splits)
  from Suc.prems(2) have lt: "int (step st) < MaxNewTokens opts" by simp
  have "trip_count ok m tokenizer opts st =
        Suc (trip_count ok m tokenizer opts (s1\<lparr>step := Suc (step st)\<rparr>))"
    using lt b by (subst trip_count.simps) simp
  also have "\<dots> = Suc (j + trip_count ok m tokenizer opts st')"
    using Suc.IH[OF r] Suc.prems(2) by simp
  finally show ?case by simp
qed

lemma trip_count_exhausted:
  "MaxNewTokens opts \<le> int (step st) \<Longrightarrow> trip_count ok m tokenizer opts st = 0"
  by (subst trip_count.simps) simp

lemma run_steps_tokens:
  assumes "run_steps ok m tokenizer opts j st = Some st'"
  shows "\<exists>ts. length ts = j \<and> generated st' = generated st @ ts \<and> curIDs st' = curIDs st @ ts"
  using assms
proof (induction j arbitrary: st)
  case 0
  then show ?case by simp
next
  case (Suc j)
  from Suc.prems obtain s1 where b: "loop_body ok m tokenizer opts st = Next s1"
    and r: "run_steps ok m tokenizer opts j (s1\<lparr>step := Suc (step st)\<rparr>) = Some st'"
    by (auto split: outcome.splits)
  from loop_body_Next[OF b] obtain nextID w' where
    s1: "s1 = appended (st\<lparr>wld := w'\<rparr>) nextID
                   (FullText (step_event m tokenizer opts (st\<lparr>wld := w'\<rparr>) nextID))"
    by blast
  from Suc.IH[OF r] obtain ts where ts: "length ts = j"
    "generated st' = generated (s1\<lparr>step := Suc (step st)\<rparr>) @ ts"
    "curIDs st' = curIDs (s1\<lparr>step := Suc (step st)\<rparr>) @ ts" by blast
  with s1 show ?case
    by (intro exI[of _ "nextID # ts"]) (simp add: appended_def)
qed

subsection \<open>When an iteration goes on\<close>

lemma stop_scan_hit_iff:
  "snd (snd (stop_scan stops full d)) =
     (\<exists>s\<in>set stops. s \<noteq> [] \<and> (\<exists>x y. full = x @ s @ y))"
proof (induction stops)
  case Nil
  then show ?case by simp
next
  case (Cons s stops)
  show ?case
  proof (cases "s = []")
    case True
    with Cons show ?thesis by simp
  next
    case False
    show ?thesis
    proof (cases "0 \<le> strings_Index full s")
      case True
      with strings_Index_found[OF True] False show ?thesis
        by (auto simp: Let_def)
    next
      case neg: False
      then have "\<not> (\<exists>x y. full = x @ s @ y)" using strings_Index_first by blast
      with neg False Cons show ?thesis by (auto simp: Let_def)
    qed
  qed
qed

lemma step_event_Done:
  "Done (step_event m tokenizer opts st nextID) =
     ((0 \<le> EOS_TOKEN_ID (config m) \<and> nextID = EOS_TOKEN_ID (config m)) \<or>
      (\<exists>s\<in>set (StopSequences opts). s \<noteq> [] \<and>
         (\<exists>x y. snd (text_accounting tokenizer nextID (fullText st)) = x @ s @ y)))"
proof -
  obtain delta full1 where ta: "text_accounting tokenizer nextID (fullText st) = (delta, full1)"
    by (cases "text_accounting tokenizer nextID (fullText st)")
  obtain full2 delta2 hit where sc: "stop_scan (StopSequences opts) full1 delta = (full2, delta2, hit)"
    by (cases "stop_scan (StopSequences opts) full1 delta") auto
  have "hit = (\<exists>s\<in>set (StopSequences opts). s \<noteq> [] \<and> (\<exists>x y. full1 = x @ s @ y))"
    using stop_scan_hit_iff[of "StopSequences opts" full1 delta] sc by simp
  with ta sc show ?thesis by (simp add: step_event_def)
qed

text \<open>
  An iteration goes on exactly when its forward pass selects a token, the token is not
  the (non-negative) end-of-sequence id, no non-empty stop string occurs in the
  accumulated text, and the streamer, if there is one, returns true.
\<close>

lemma loop_body_Next_iff:
  "(\<exists>st'. loop_body ok m tokenizer opts st = Next st') =
     (\<exists>nextID w'. forward ok m (curIDs st) (curMask st) (wld st) = (Inr nextID, w') \<and>
        \<not> (0 \<le> EOS_TOKEN_ID (config m) \<and> nextID = EOS_TOKEN_ID (config m)) \<and>
        \<not> (\<exists>s\<in>set (StopSequences opts). s \<noteq> [] \<and>
             (\<exists>x y. snd (text_accounting tokenizer nextID (fullText st)) = x @ s @ y)) \<and>
        (\<forall>f. Streamer opts = Some f \<longrightarrow>
             f (step_event m tokenizer opts (st\<lparr>wld := w'\<rparr>) nextID)))"
proof
  assume "\<exists>st'. loop_body ok m tokenizer opts st = Next st'"
  then obtain st' where "loop_body ok m tokenizer opts st = Next st'" by blast
  from loop_body_Next[OF this] show
    "\<exists>nextID w'. forward ok m (curIDs st) (curMask st) (wld st) = (Inr nextID, w') \<and>
        \<not> (0 \<le> EOS_TOKEN_ID (config m) \<and> nextID = EOS_TOKEN_ID (config m)) \<and>
        \<not> (\<exists>s\<in>set (StopSequences opts). s \<noteq> [] \<and>
             (\<exists>x y. snd (text_accounting tokenizer nextID (fullText st)) = x @ s @ y)) \<and>
        (\<forall>f. Streamer opts = Some f \<longrightarrow>
             f (step_event m tokenizer opts (st\<lparr>wld := w'\<rparr>) nextID))"
    by (auto simp: step_event_Done)
next
  assume "\<exists>nextID w'. forward ok m (curIDs st) (curMask st) (wld st) = (Inr nextID, w') \<and>
        \<not> (0 \<le> EOS_TOKEN_ID (config m) \<and> nextID = EOS_TOKEN_ID (config m)) \<and>
        \<not> (\<exists>s\<in>set (StopSequences opts). s \<noteq> [] \<and>
             (\<exists>x y. snd (text_accounting tokenizer nextID (fullText st)) = x @ s @ y)) \<and>
        (\<forall>f. Streamer opts = Some f \<longrightarrow>
             f (step_event m tokenizer opts (st\<lparr>wld := w'\<rparr>) nextID))"
  then obtain nextID w' where f: "forward ok m (curIDs st) (curMask st) (wld st) = (Inr nextID, w')"
    and nd: "\<not> Done (step_event m tokenizer opts (st\<lparr>wld := w'\<rparr>) nextID)"
    and s: "\<forall>f. Streamer opts = Some f \<longrightarrow>
             f (step_event m tokenizer opts (st\<lparr>wld := w'\<rparr>) nextID)"
    by (auto simp: step_event_Done)
  show "\<exists>st'. loop_body ok m tokenizer opts st = Next st'"
    using nd s by (auto simp: loop_body_Inr[OF f] advance_cases Let_def)
qed

subsection \<open>Generate and the loop\<close>

lemma Generate_loop:
  assumes "tokenizer \<noteq> None" and "session m \<noteq> None"
  shows "Generate ok m tokenizer [ids] [msk] opts w =
           generate_loop ok m tokenizer (normalizeMaxNewTokens opts) (init_state ids msk w)"
  using assms by (cases "ioPreset m") (auto simp: Generate_def generateSimpleCausal_def Let_def)

lemma Generate_cases:
  "(\<exists>e. Generate ok m tokenizer inputIDs attentionMask opts w = (Inl e, w)) \<or>
   Generate ok m tokenizer inputIDs attentionMask opts w =
     generate_loop ok m tokenizer (normalizeMaxNewTokens opts)
       (init_state (inputIDs ! 0) (attentionMask ! 0) w)"
  by (cases "ioPreset m") (simp_all add: Generate_def generateSimpleCausal_def Let_def)

lemma normalize_pos: "1 \<le> MaxNewTokens opts \<Longrightarrow> normalizeMaxNewTokens opts = opts"
  by (simp add: normalizeMaxNewTokens_def)

lemma run_steps_normalize [simp]:
  "run_steps ok m tokenizer (normalizeMaxNewTokens opts) j st = run_steps ok m tokenizer opts j st"
  by (simp add: normalizeMaxNewTokens_def)

text \<open>
  C2. Let \<open>MaxNewTokens = N\<close> with \<open>N \<ge> 1\<close>. If each of the first \<open>N\<close> iterations
  runs to its end and goes on (\<open>run_steps\<close>; by \<open>loop_body_Next_iff\<close>: no construction
  or execution error, no stop string matched, no end-of-sequence token selected, no
  \<open>false\<close> from the streamer), then \<open>Generate\<close> returns exactly the \<open>N\<close> token ids
  generated by these iterations, after exactly \<open>N\<close> iterations. Whatever happens, the
  loop body is entered at most \<open>N\<close> times, the graph is executed at most \<open>N\<close> times
  and a returned sequence has at most \<open>N\<close> token ids.
\<close>

theorem generate_exactly_N:
  assumes "1 \<le> N" and "MaxNewTokens opts = N"
  shows "(\<forall>st. tokenizer \<noteq> None \<and> session m \<noteq> None \<and>
               run_steps ok m tokenizer opts (nat N) (init_state ids msk w) = Some st \<longrightarrow>
            Generate ok m tokenizer [ids] [msk] opts w = (Inr [generated st], wld st) \<and>
            length (generated st) = nat N \<and>
            trip_count ok m tokenizer opts (init_state ids msk w) = nat N) \<and>
         trip_count ok m tokenizer opts (init_state ids msk w) \<le> nat N \<and>
         runCalls (snd (Generate ok m tokenizer inputIDs attentionMask opts w)) \<le> runCalls w + nat N \<and>
         (\<forall>g. fst (Generate ok m tokenizer inputIDs attentionMask opts w) = Inr g \<longrightarrow>
            (\<exists>gen. g = [gen] \<and> length gen \<le> nat N))"
proof (intro conjI allI impI)
  fix st
  assume a: "tokenizer \<noteq> None \<and> session m \<noteq> None \<and>
             run_steps ok m tokenizer opts (nat N) (init_state ids msk w) = Some st"
  then have rs: "run_steps ok m tokenizer opts (nat N) (init_state ids msk w) = Some st" by simp
  have n: "normalizeMaxNewTokens opts = opts" using assms by (simp add: normalize_pos)
  from run_steps_facts[OF rs] have st: "step st = nat N" "length (generated st) = nat N"
    by (simp_all add: init_state_def)
  have "Generate ok m tokenizer [ids] [msk] opts w =
          generate_loop ok m tokenizer opts (init_state ids msk w)"
    using a n by (simp add: Generate_loop)
  also have "\<dots> = generate_loop ok m tokenizer opts st"
    using generate_loop_run_steps[OF rs] assms by (simp add: init_state_def)
  also have "\<dots> = (Inr [generated st], wld st)"
    using st assms by (simp add: generate_loop_exhausted)
  finally show "Generate ok m tokenizer [ids] [msk] opts w = (Inr [generated st], wld st)" .
  show "length (generated st) = nat N" by (rule st(2))
  show "trip_count ok m tokenizer opts (init_state ids msk w) = nat N"
    using trip_count_run_steps[OF rs] trip_count_exhausted[of opts st ok m tokenizer] st assms
    by (simp add: init_state_def)
next
  show "trip_count ok m tokenizer opts (init_state ids msk w) \<le> nat N"
    using trip_count_le[of ok m tokenizer opts "init_state ids msk w"] assms
    by (simp add: init_state_def)
  have n: "normalizeMaxNewTokens opts = opts" using assms by (simp add: normalize_pos)
  obtain r w' where g: "generate_loop ok m tokenizer opts
       (init_state (inputIDs ! 0) (attentionMask ! 0) w) = (r, w')" by (cases "generate_loop ok m tokenizer opts
       (init_state (inputIDs ! 0) (attentionMask ! 0) w)")
  from generate_loop_bound[OF g] assms
  have b: "runCalls w' \<le> runCalls w + nat N"
    "\<forall>g. r = Inr g \<longrightarrow> (\<exists>gen. g = [gen] \<and> length gen \<le> nat N)"
    by (simp_all add: init_state_def)
  from Generate_cases[of ok m tokenizer inputIDs attentionMask opts w] g n b
  show "runCalls (snd (Generate ok m tokenizer inputIDs attentionMask opts w)) \<le> runCalls w + nat N"
    by auto
  fix gg assume "fst (Generate ok m tokenizer inputIDs attentionMask opts w) = Inr gg"
  with Generate_cases[of ok m tokenizer inputIDs attentionMask opts w] g n b
  show "\<exists>gen. gg = [gen] \<and> length gen \<le> nat N" by auto
qed

lemma step_event_eos:
  "0 \<le> EOS_TOKEN_ID (config m) \<Longrightarrow>
   Done (step_event m tokenizer opts st (EOS_TOKEN_ID (config m)))"
  by (simp add: step_event_def split: prod.splits)

text \<open>
  C5. Let the configured end-of-sequence id be non-negative. If the first \<open>k - 1\<close>
  iterations went on, step \<open>k\<close> is within the bound of the loop, and the forward pass
  of step \<open>k\<close> selects the end-of-sequence id, then \<open>Generate\<close> returns the \<open>k - 1\<close>
  earlier tokens followed by the end-of-sequence id, \<open>k\<close> token ids in all, and the
  graph was executed exactly \<open>k\<close> times: no further step runs.
\<close>

theorem eos_stops_at_k:
  assumes "0 \<le> EOS_TOKEN_ID (config m)"
    and "tokenizer \<noteq> None" and "session m \<noteq> None"
    and "run_steps ok m tokenizer opts k0 (init_state ids msk w) = Some st"
    and "int (Suc k0) \<le> MaxNewTokens (normalizeMaxNewTokens opts)"
    and "forward ok m (curIDs st) (curMask st) (wld st) = (Inr (EOS_TOKEN_ID (config m)), w')"
  shows "Generate ok m tokenizer [ids] [msk] opts w =
           (Inr [generated st @ [EOS_TOKEN_ID (config m)]], w') \<and>
         length (generated st @ [EOS_TOKEN_ID (config m)]) = Suc k0 \<and>
         runCalls w' = runCalls w + Suc k0"
proof -
  let ?opts = "normalizeMaxNewTokens opts"
  let ?eos = "EOS_TOKEN_ID (config m)"
  have rs: "run_steps ok m tokenizer ?opts k0 (init_state ids msk w) = Some st"
    using assms(4) by simp
  from run_steps_facts[OF rs]
  have st: "step st = k0" "length (generated st) = k0" "runCalls (wld st) = runCalls w + k0"
    by (simp_all add: init_state_def)
  have body: "loop_body ok m tokenizer ?opts st =
      Broke (appended (st\<lparr>wld := w'\<rparr>) ?eos
               (FullText (step_event m tokenizer ?opts (st\<lparr>wld := w'\<rparr>) ?eos)))"
    using step_event_eos[OF assms(1)]
    by (simp add: loop_body_Inr[OF assms(6)] advance_cases Let_def)
  have "Generate ok m tokenizer [ids] [msk] opts w =
          generate_loop ok m tokenizer ?opts (init_state ids msk w)"
    using assms(2,3) by (simp add: Generate_loop)
  also have "\<dots> = generate_loop ok m tokenizer ?opts st"
    using generate_loop_run_steps[OF rs] assms(5) by (simp add: init_state_def)
  also have "\<dots> = (Inr [generated st @ [?eos]], w')"
    using st(1) assms(5) body by (subst generate_loop.simps) (simp add: appended_def)
  finally have "Generate ok m tokenizer [ids] [msk] opts w = (Inr [generated st @ [?eos]], w')" .
  with st forward_runCalls_Inr[OF assms(6)] show ?thesis by simp
qed

lemma generate_loop_DoSample:
  "generate_loop ok m tokenizer (opts\<lparr>DoSample := b\<rparr>) st = generate_loop ok m tokenizer opts st"
proof (induction ok m tokenizer opts st rule: generate_loop.induct)
  case (1 ok m tokenizer opts st)
  show ?case
  proof (cases "int (step st) < MaxNewTokens opts")
    case False
    then show ?thesis by (simp add: generate_loop_exhausted)
  next
    case True
    show ?thesis
    proof (cases "loop_body ok m tokenizer opts st")
      case (Next s1)
      have "generate_loop ok m tokenizer (opts\<lparr>DoSample := b\<rparr>) st =
            generate_loop ok m tokenizer (opts\<lparr>DoSample := b\<rparr>) (s1\<lparr>step := Suc (step st)\<rparr>)"
        using True Next by (subst generate_loop.simps) simp
      also have "\<dots> = generate_loop ok m tokenizer opts (s1\<lparr>step := Suc (step st)\<rparr>)"
        using "1.IH"[OF True Next] .
      also have "\<dots> = generate_loop ok m tokenizer opts st"
        using True Next by (subst (2) generate_loop.simps) simp
      finally show ?thesis .
    next
      case (Failed e w1)
      then show ?thesis using True
        by (subst generate_loop.simps, subst (2) generate_loop.simps) simp
    next
      case (Broke s1)
      then show ?thesis using True
        by (subst generate_loop.simps, subst (2) generate_loop.simps) simp
    qed
  qed
qed

lemma normalize_DoSample:
  "normalizeMaxNewTokens (opts\<lparr>DoSample := b\<rparr>) = (normalizeMaxNewTokens opts)\<lparr>DoSample := b\<rparr>"
  by (simp add: normalizeMaxNewTokens_def)

text \<open>
  C6. \<open>Generate\<close> never reads \<open>DoSample\<close>: with \<open>DoSample = true\<close> it returns what it
  returns with \<open>DoSample = false\<close> (the generated sequence or the error, and the same
  trace of engine calls), for every engine, model, tokenizer, input and option set.
  The next token is always the arg-max of the last row of logits (\<open>select_next\<close>).
\<close>

theorem doSample_ignored:
  "Generate ok m tokenizer inputIDs attentionMask (opts\<lparr>DoSample := True\<rparr>) w =
   Generate ok m tokenizer inputIDs attentionMask (opts\<lparr>DoSample := False\<rparr>) w"
  by (cases "ioPreset m")
    (simp_all add: Generate_def generateSimpleCausal_def Let_def normalize_DoSample
      generate_loop_DoSample)

subsection \<open>Evaluation on the test doubles\<close>

lemmas demo_defs =
  demo_model_def demo_config_def demo_session_def demo_info_def demo_opts_def demo_decode_def
  failing_decode_def ok_always_def ok_first3_def world0_def init_state_def

lemmas body_defs =
  loop_body_def forward_def advance_def step_event_def text_accounting_def select_next_def
  tensorFromInt64s_def tensorFromFloat32s_def Destroy_def DestroyOutput_def argmaxF32_def
  EOS_TOKEN_ID_def Let_def

lemma demo_forward_2:
  "forward ok_always (demo_model eos [''input_ids'', ''attention_mask'']) [1, 2] msk world0 =
     (Inr 1, \<lparr>newCalls = 2, constructed = 2, destroyed = 2, runCalls = 1,
              outAllocated = 1, outDestroyed = 1\<rparr>)"
  by (simp add: demo_defs body_defs)

lemma demo_body_1:
  "loop_body ok_always (demo_model (- 1) [''input_ids'', ''attention_mask'']) (Some demo_decode)
     (demo_opts n) (init_state [1, 2] msk world0) =
   Next \<lparr>curIDs = [1, 2, 1], curMask = msk @ [1], generated = [1], fullText = ''x'', step = 0,
         wld = \<lparr>newCalls = 2, constructed = 2, destroyed = 2, runCalls = 1,
                outAllocated = 1, outDestroyed = 1\<rparr>\<rparr>"
  by (simp add: demo_defs body_defs)

lemma demo_body_2:
  "loop_body ok_always (demo_model (- 1) [''input_ids'', ''attention_mask'']) (Some demo_decode)
     (demo_opts n)
     \<lparr>curIDs = [1, 2, 1], curMask = msk, generated = [1], fullText = ''x'', step = Suc 0,
         wld = \<lparr>newCalls = 2, constructed = 2, destroyed = 2, runCalls = Suc 0,
                outAllocated = Suc 0, outDestroyed = Suc 0\<rparr>\<rparr> =
   Next \<lparr>curIDs = [1, 2, 1, 1], curMask = msk @ [1], generated = [1, 1], fullText = ''xx'',
         step = Suc 0,
         wld = \<lparr>newCalls = 4, constructed = 4, destroyed = 4, runCalls = 2,
                outAllocated = 2, outDestroyed = 2\<rparr>\<rparr>"
  by (simp add: demo_defs body_defs)

lemma demo_run_1:
  "run_steps ok_always (demo_model (- 1) [''input_ids'', ''attention_mask'']) (Some demo_decode)
     (demo_opts n) (Suc 0) (init_state [1, 2] msk world0) =
   Some \<lparr>curIDs = [1, 2, 1], curMask = msk @ [1], generated = [1], fullText = ''x'',
         step = Suc 0,
         wld = \<lparr>newCalls = 2, constructed = 2, destroyed = 2, runCalls = 1,
                outAllocated = 1, outDestroyed = 1\<rparr>\<rparr>"
  by (simp add: demo_body_1) (simp add: init_state_def)

lemma demo_run_2:
  "run_steps ok_always (demo_model (- 1) [''input_ids'', ''attention_mask'']) (Some demo_decode)
     (demo_opts n) (Suc (Suc 0)) (init_state [1, 2] msk world0) =
   Some \<lparr>curIDs = [1, 2, 1, 1], curMask = msk @ [1, 1], generated = [1, 1], fullText = ''xx'',
         step = Suc (Suc 0),
         wld = \<lparr>newCalls = 4, constructed = 4, destroyed = 4, runCalls = 2,
                outAllocated = 2, outDestroyed = 2\<rparr>\<rparr>"
  by (simp add: demo_body_1) (simp add: init_state_def demo_body_2)

theorem generate_exactly_N_witness:
  "Generate ok_always (demo_model (- 1) [''input_ids'', ''attention_mask'']) (Some demo_decode)
     [[1, 2]] [[1, 1]] (demo_opts 2) world0 =
     (Inr [[1, 1]], \<lparr>newCalls = 4, constructed = 4, destroyed = 4, runCalls = 2,
                outAllocated = 2, outDestroyed = 2\<rparr>) \<and>
   length [1, 1 :: int] = nat 2 \<and>
   trip_count ok_always (demo_model (- 1) [''input_ids'', ''attention_mask'']) (Some demo_decode)
     (demo_opts 2) (init_state [1, 2] [1, 1] world0) = nat 2"
proof -
  have h1: "(1::int) \<le> 2" by simp
  have h2: "MaxNewTokens (demo_opts 2) = 2" by (simp add: demo_opts_def)
  have h3: "Some demo_decode \<noteq> None \<and>
            session (demo_model (- 1) [''input_ids'', ''attention_mask'']) \<noteq> None \<and>
            run_steps ok_always (demo_model (- 1) [''input_ids'', ''attention_mask''])
              (Some demo_decode) (demo_opts 2) (nat 2) (init_state [1, 2] [1, 1] world0) =
            Some \<lparr>curIDs = [1, 2, 1, 1], curMask = [1, 1] @ [1, 1], generated = [1, 1],
                  fullText = ''xx'', step = Suc (Suc 0),
                  wld = \<lparr>newCalls = 4, constructed = 4, destroyed = 4, runCalls = 2,
                         outAllocated = 2, outDestroyed = 2\<rparr>\<rparr>"
    using demo_run_2[of 2 "[1, 1]"] by (simp add: demo_model_def eval_nat_numeral)
  from generate_exactly_N[OF h1 h2, of "Some demo_decode"
      "demo_model (- 1) [''input_ids'', ''attention_mask'']" ok_always "[1, 2]" "[1, 1]" world0]
    h3
  show ?thesis by auto
qed

theorem eos_stops_at_k_witness:
  "Generate ok_always (demo_model 1 [''input_ids'', ''attention_mask'']) (Some demo_decode)
     [[1, 2]] [[1, 1]] (demo_opts 2) world0 =
     (Inr [[] @ [1]], \<lparr>newCalls = 2, constructed = 2, destroyed = 2, runCalls = 1,
              outAllocated = 1, outDestroyed = 1\<rparr>) \<and>
   length ([] @ [1 :: int]) = Suc 0"
proof -
  let ?m = "demo_model 1 [''input_ids'', ''attention_mask'']"
  let ?st = "init_state [1, 2] [1, 1] world0"
  have eos: "EOS_TOKEN_ID (config ?m) = 1" by (simp add: demo_defs EOS_TOKEN_ID_def)
  have h1: "0 \<le> EOS_TOKEN_ID (config ?m)" by (simp add: eos)
  have h2: "Some demo_decode \<noteq> None" by simp
  have h3: "session ?m \<noteq> None" by (simp add: demo_model_def)
  have h4: "run_steps ok_always ?m (Some demo_decode) (demo_opts 2) 0 ?st = Some ?st" by simp
  have h5: "int (Suc 0) \<le> MaxNewTokens (normalizeMaxNewTokens (demo_opts 2))"
    by (simp add: normalizeMaxNewTokens_def demo_opts_def)
  have h6: "forward ok_always ?m (curIDs ?st) (curMask ?st) (wld ?st) =
      (Inr (EOS_TOKEN_ID (config ?m)),
       \<lparr>newCalls = 2, constructed = 2, destroyed = 2, runCalls = 1,
              outAllocated = 1, outDestroyed = 1\<rparr>)"
    using demo_forward_2[of 1 "[1, 1]"] by (simp add: eos init_state_def)
  from eos_stops_at_k[OF h1 h2 h3 h4 h5 h6]
  show ?thesis by (simp add: eos init_state_def)
qed

theorem doSample_ignored_witness:
  "Generate ok_always (demo_model 1 [''input_ids'', ''attention_mask'']) (Some demo_decode)
     [[1, 2]] [[1, 1]] ((demo_opts 2)\<lparr>DoSample := True\<rparr>) world0 =
   Generate ok_always (demo_model 1 [''input_ids'', ''attention_mask'']) (Some demo_decode)
     [[1, 2]] [[1, 1]] ((demo_opts 2)\<lparr>DoSample := False\<rparr>) world0"
  by (rule doSample_ignored)

subsection \<open>Lengths of the sequence and of the mask\<close>

text \<open>
  C8 (as amended). Every iteration that selects a token appends exactly one token id
  to the sequence and one entry 1 to the mask. So at the head of every iteration of a
  \<open>Generate\<close> call the sequence is \<open>j\<close> longer than the input ids and the mask is the
  input mask followed by \<open>j\<close> ones: the two lengths are equal at every step exactly
  when they were equal in the input (\<open>Generate\<close> checks the batch dimension only).
\<close>

theorem lengths_keep_their_difference:
  assumes "run_steps ok m tokenizer opts j (init_state ids msk w) = Some st"
  shows "length (curIDs st) = length ids + j \<and>
         curMask st = msk @ replicate j 1 \<and>
         length (curMask st) = length msk + j \<and>
         (length (curIDs st) = length (curMask st)) = (length ids = length msk) \<and>
         (\<forall>st'. loop_body ok m tokenizer opts st = Next st' \<or>
                loop_body ok m tokenizer opts st = Broke st' \<longrightarrow>
            (\<exists>t. curIDs st' = curIDs st @ [t] \<and> generated st' = generated st @ [t]) \<and>
            curMask st' = curMask st @ [1])"
proof -
  from run_steps_facts[OF assms]
  have a: "length (curIDs st) = length ids + j" "curMask st = msk @ replicate j 1"
    by (simp_all add: init_state_def)
  have b: "\<forall>st'. loop_body ok m tokenizer opts st = Next st' \<or>
                loop_body ok m tokenizer opts st = Broke st' \<longrightarrow>
            (\<exists>t. curIDs st' = curIDs st @ [t] \<and> generated st' = generated st @ [t]) \<and>
            curMask st' = curMask st @ [1]"
  proof (intro allI impI)
    fix st'
    assume "loop_body ok m tokenizer opts st = Next st' \<or>
            loop_body ok m tokenizer opts st = Broke st'"
    then obtain nextID w' tx where "st' = appended (st\<lparr>wld := w'\<rparr>) nextID tx"
      using loop_body_Next loop_body_Broke by blast
    then show "(\<exists>t. curIDs st' = curIDs st @ [t] \<and> generated st' = generated st @ [t]) \<and>
            curMask st' = curMask st @ [1]"
      by (simp add: appended_def)
  qed
  from a b show ?thesis by simp
qed

theorem lengths_keep_their_difference_witness:
  "length [1, 2, 1 :: int] = length [1, 2 :: int] + Suc 0 \<and>
   [1] @ [1] = [1 :: int] @ replicate (Suc 0) 1 \<and>
   (length [1, 2, 1 :: int] = length ([1] @ [1 :: int])) = (length [1, 2 :: int] = length [1 :: int])"
  using lengths_keep_their_difference[OF demo_run_1[of 1 "[1]"]]
  by simp

text \<open>
  The claim as stated fails on ids \<open>[1, 2]\<close> with mask \<open>[1]\<close>: \<open>Generate\<close> accepts
  them, and after the first iteration the sequence has three entries and the mask two.
\<close>

theorem unequal_lengths_counterexample:
  "fst (Generate ok_always (demo_model (- 1) [''input_ids'', ''attention_mask''])
          (Some demo_decode) [[1, 2]] [[1]] (demo_opts 1) world0) = Inr [[1]] \<and>
   run_steps ok_always (demo_model (- 1) [''input_ids'', ''attention_mask'']) (Some demo_decode)
     (demo_opts 1) (Suc 0) (init_state [1, 2] [1] world0) =
   Some \<lparr>curIDs = [1, 2, 1], curMask = [1, 1], generated = [1], fullText = ''x'',
         step = Suc 0,
         wld = \<lparr>newCalls = 2, constructed = 2, destroyed = 2, runCalls = 1,
                outAllocated = 1, outDestroyed = 1\<rparr>\<rparr> \<and>
   length [1, 2, 1 :: int] \<noteq> length [1, 1 :: int]"
proof -
  have "Generate ok_always (demo_model (- 1) [''input_ids'', ''attention_mask''])
          (Some demo_decode) [[1, 2]] [[1]] (demo_opts 1) world0 =
        generate_loop ok_always (demo_model (- 1) [''input_ids'', ''attention_mask''])
          (Some demo_decode) (demo_opts 1) (init_state [1, 2] [1] world0)"
    by (simp add: Generate_loop demo_model_def) (simp add: normalizeMaxNewTokens_def demo_opts_def)
  also have "\<dots> = generate_loop ok_always (demo_model (- 1) [''input_ids'', ''attention_mask''])
          (Some demo_decode) (demo_opts 1)
          \<lparr>curIDs = [1, 2, 1], curMask = [1] @ [1], generated = [1], fullText = ''x'',
         step = Suc 0,
         wld = \<lparr>newCalls = 2, constructed = 2, destroyed = 2, runCalls = 1,
                outAllocated = 1, outDestroyed = 1\<rparr>\<rparr>"
    by (rule generate_loop_run_steps[OF demo_run_1]) (simp add: demo_opts_def init_state_def)
  also have "\<dots> = (Inr [[1]], \<lparr>newCalls = 2, constructed = 2, destroyed = 2, runCalls = 1,
                outAllocated = 1, outDestroyed = 1\<rparr>)"
    by (simp add: generate_loop_exhausted demo_opts_def)
  finally show ?thesis using demo_run_1[of 1 "[1]"] by simp
qed

subsection \<open>Decode failures\<close>

lemma stop_scan_no_hit:
  "stop_scan stops full d = (full', d', False) \<Longrightarrow>
   full' = full \<and> d' = d \<and> (\<forall>d2. stop_scan stops full d2 = (full, d2, False))"
  by (induction stops) (auto simp: Let_def split: if_splits)

lemma stop_scan_empty_text: "stop_scan stops [] d = ([], d, False)"
  by (induction stops) (auto simp: Let_def)

lemma loop_body_Next_no_stop:
  assumes "loop_body ok m tokenizer opts st = Next s1"
  shows "stop_scan (StopSequences opts) (fullText s1) d = (fullText s1, d, False)"
proof -
  from loop_body_Next[OF assms] obtain nextID w' where
    s1: "s1 = appended (st\<lparr>wld := w'\<rparr>) nextID
                   (FullText (step_event m tokenizer opts (st\<lparr>wld := w'\<rparr>) nextID))"
    and nd: "\<not> Done (step_event m tokenizer opts (st\<lparr>wld := w'\<rparr>) nextID)"
    by blast
  obtain delta full1 where ta: "text_accounting tokenizer nextID (fullText (st\<lparr>wld := w'\<rparr>)) = (delta, full1)"
    by (cases "text_accounting tokenizer nextID (fullText (st\<lparr>wld := w'\<rparr>))")
  obtain full2 delta2 hit where sc: "stop_scan (StopSequences opts) full1 delta = (full2, delta2, hit)"
    by (cases "stop_scan (StopSequences opts) full1 delta") auto
  from nd ta sc have "\<not> hit" by (simp add: step_event_def)
  with sc stop_scan_no_hit[of "StopSequences opts" full1 delta full2 delta2]
  have "full2 = full1" "\<forall>d2. stop_scan (StopSequences opts) full1 d2 = (full1, d2, False)"
    by simp_all
  moreover have "fullText s1 = full2" using s1 ta sc by (simp add: appended_def step_event_def)
  ultimately show ?thesis by simp
qed

lemma run_steps_no_stop:
  assumes "run_steps ok m tokenizer opts j st = Some st'"
    and "\<forall>d. stop_scan (StopSequences opts) (fullText st) d = (fullText st, d, False)"
  shows "stop_scan (StopSequences opts) (fullText st') d = (fullText st', d, False)"
  using assms
proof (induction j arbitrary: st)
  case 0
  then show ?case by simp
next
  case (Suc j)
  from Suc.prems(1) obtain s1 where b: "loop_body ok m tokenizer opts st = Next s1"
    and r: "run_steps ok m tokenizer opts j (s1\<lparr>step := Suc (step st)\<rparr>) = Some st'"
    by (auto split: outcome.splits)
  have "\<forall>d. stop_scan (StopSequences opts) (fullText (s1\<lparr>step := Suc (step st)\<rparr>)) d =
          (fullText (s1\<lparr>step := Suc (step st)\<rparr>), d, False)"
    using loop_body_Next_no_stop[OF b] by simp
  from Suc.IH[OF r this] show ?case .
qed

text \<open>
  C9. At the head of any iteration of a \<open>Generate\<close> call, if the forward pass selects
  \<open>nextID\<close> and decoding it fails, then the delta text of the step is empty and the
  accumulated text is what it was (nothing appended, and no stop string matches it);
  the step is not aborted: the token id is appended to the generated tokens and to the
  sequence, a 1 to the mask, and the loop goes on unless the token is the
  end-of-sequence id or the streamer returns false.
\<close>

theorem decode_failure_recovers:
  assumes "run_steps ok m tokenizer opts j (init_state ids msk w) = Some st"
    and "tokenizer = Some decode"
    and "forward ok m (curIDs st) (curMask st) (wld st) = (Inr nextID, w')"
    and "decode [nextID] = Inl e"
  shows "DeltaText (step_event m tokenizer opts (st\<lparr>wld := w'\<rparr>) nextID) = [] \<and>
         FullText (step_event m tokenizer opts (st\<lparr>wld := w'\<rparr>) nextID) = fullText st \<and>
         loop_body ok m tokenizer opts st =
           (if (0 \<le> EOS_TOKEN_ID (config m) \<and> nextID = EOS_TOKEN_ID (config m)) \<or>
               (\<exists>f. Streamer opts = Some f \<and>
                    \<not> f (step_event m tokenizer opts (st\<lparr>wld := w'\<rparr>) nextID))
            then Broke (st\<lparr>wld := w', generated := generated st @ [nextID],
                           curIDs := curIDs st @ [nextID], curMask := curMask st @ [1]\<rparr>)
            else Next (st\<lparr>wld := w', generated := generated st @ [nextID],
                          curIDs := curIDs st @ [nextID], curMask := curMask st @ [1]\<rparr>))"
proof -
  let ?ev = "step_event m tokenizer opts (st\<lparr>wld := w'\<rparr>) nextID"
  have ta: "text_accounting tokenizer nextID (fullText (st\<lparr>wld := w'\<rparr>)) = ([], fullText st)"
    using assms(2,4) by (simp add: text_accounting_def)
  have sc: "stop_scan (StopSequences opts) (fullText st) [] = (fullText st, [], False)"
    by (rule run_steps_no_stop[OF assms(1)]) (simp add: init_state_def stop_scan_empty_text)
  have ev: "?ev = \<lparr>TokenID = nextID, DeltaText = [], FullText = fullText st,
                   Step = int (step st),
                   Done = (0 \<le> EOS_TOKEN_ID (config m) \<and> nextID = EOS_TOKEN_ID (config m))\<rparr>"
    using ta sc by (simp add: step_event_def)
  have app: "appended (st\<lparr>wld := w'\<rparr>) nextID (fullText st) =
             st\<lparr>wld := w', generated := generated st @ [nextID],
                  curIDs := curIDs st @ [nextID], curMask := curMask st @ [1]\<rparr>"
    by (simp add: appended_def)
  have "loop_body ok m tokenizer opts st = advance m tokenizer opts (st\<lparr>wld := w'\<rparr>) nextID"
    by (rule loop_body_Inr[OF assms(3)])
  then show ?thesis
    unfolding advance_cases Let_def by (simp add: ev app)
qed

theorem decode_failure_recovers_witness:
  "loop_body ok_always (demo_model (- 1) [''input_ids'', ''attention_mask''])
     (Some failing_decode) (demo_opts 2) (init_state [1, 2] [1, 1] world0) =
   Next \<lparr>curIDs = [1, 2, 1], curMask = [1, 1, 1], generated = [1], fullText = [], step = 0,
         wld = \<lparr>newCalls = 2, constructed = 2, destroyed = 2, runCalls = 1,
                outAllocated = 1, outDestroyed = 1\<rparr>\<rparr>"
proof -
  let ?m = "demo_model (- 1) [''input_ids'', ''attention_mask'']"
  let ?st = "init_state [1, 2] [1, 1] world0"
  have h1: "run_steps ok_always ?m (Some failing_decode) (demo_opts 2) 0 ?st = Some ?st" by simp
  have h2: "Some failing_decode = Some failing_decode" by simp
  have h3: "forward ok_always ?m (curIDs ?st) (curMask ?st) (wld ?st) =
      (Inr 1, \<lparr>newCalls = 2, constructed = 2, destroyed = 2, runCalls = 1,
              outAllocated = 1, outDestroyed = 1\<rparr>)"
    using demo_forward_2[of "- 1" "[1, 1]"] by (simp add: init_state_def)
  have h4: "failing_decode [1] = Inl DecodeError" by (simp add: failing_decode_def)
  from decode_failure_recovers[OF h1 h2 h3 h4]
  show ?thesis by (simp add: demo_defs EOS_TOKEN_ID_def)
qed

subsection \<open>The generator's default for max\_new\_tokens\<close>

lemma fits_int_Fin64: "fits_int (Fin64 x) = (- (2 ^ 63) - 1 < x \<and> x < 2 ^ 63)"
proof (cases "0 \<le> x")
  case True
  have "(\<lfloor>x\<rfloor> < 2 ^ 63) = (x < 2 ^ 63)" by (simp add: floor_less_iff)
  moreover have "- (2 ^ 63) \<le> \<lfloor>x\<rfloor>" using True by (simp add: le_floor_iff)
  moreover have "- (2 ^ 63) - 1 < x" using True by simp
  ultimately show ?thesis using True by (simp add: fits_int_def truncate_def)
next
  case False
  have "(- (2 ^ 63) \<le> \<lceil>x\<rceil>) = (- (2 ^ 63) - 1 < x)" by (simp add: le_ceiling_iff)
  moreover have "\<lceil>x\<rceil> < 2 ^ 63" using False by (simp add: ceiling_less_iff)
  moreover have "x < 2 ^ 63" using False by simp
  ultimately show ?thesis using False by (simp add: fits_int_def truncate_def)
qed

lemma truncate_nonpos: "(truncate x \<le> 0) = (x < 1)"
  by (auto simp: truncate_def)

lemma float64_to_int_nonpos:
  "(float64_to_int platform t \<le> 0) =
     ((\<exists>x. t = Fin64 x \<and> - (2 ^ 63) - 1 < x \<and> x < 1) \<or>
      (\<not> fits_int t \<and> platform t \<le> 0))"
proof (cases t)
  case (Fin64 x)
  show ?thesis
  proof (cases "fits_int t")
    case True
    with Fin64 have "float64_to_int platform t = truncate x" by (simp add: float64_to_int_def)
    with True Fin64 show ?thesis by (auto simp: truncate_nonpos fits_int_Fin64)
  next
    case False
    with Fin64 have "float64_to_int platform t = platform t" by (simp add: float64_to_int_def)
    with False Fin64 show ?thesis by (auto simp: fits_int_Fin64)
  qed
qed (simp_all add: float64_to_int_def fits_int_def)

text \<open>
  C10 (as amended). When the call options omit \<open>max_new_tokens\<close>, or hold a value that
  is neither an \<open>int\<close> nor a \<open>float64\<close>, the generator passes 32, and \<open>Generate\<close>
  keeps it. \<open>Generate\<close> substitutes its own default 128 exactly when the call options
  explicitly hold a \<open>max_new_tokens\<close> that the generator converts to an \<open>int\<close> that is at
  most 0: an \<open>int\<close> that is at most 0, a finite \<open>float64\<close> below 1 whose truncation is
  an \<open>int\<close>, or a \<open>float64\<close> that is NaN, infinite or out of the range of \<open>int\<close> on a
  platform whose conversion of it is at most 0.
\<close>

theorem pipeline_max_new_tokens:
  "((callOptions ''max_new_tokens'' = None \<or>
     (\<exists>v. callOptions ''max_new_tokens'' = Some v \<and>
          (\<forall>t. v \<noteq> AnyInt t) \<and> (\<forall>t. v \<noteq> AnyFloat64 t))) \<longrightarrow>
      MaxNewTokens (generator_genOpts platform cfg callOptions) = 32 \<and>
      MaxNewTokens (normalizeMaxNewTokens (generator_genOpts platform cfg callOptions)) = 32) \<and>
   (MaxNewTokens (generator_genOpts platform cfg callOptions) \<le> 0) =
     ((\<exists>n. callOptions ''max_new_tokens'' = Some (AnyInt n) \<and> n \<le> 0) \<or>
      (\<exists>x. callOptions ''max_new_tokens'' = Some (AnyFloat64 (Fin64 x)) \<and>
           - (2 ^ 63) - 1 < x \<and> x < 1) \<or>
      (\<exists>t. callOptions ''max_new_tokens'' = Some (AnyFloat64 t) \<and>
           \<not> fits_int t \<and> platform t \<le> 0)) \<and>
   normalizeMaxNewTokens (generator_genOpts platform cfg callOptions) =
     (if (\<exists>n. callOptions ''max_new_tokens'' = Some (AnyInt n) \<and> n \<le> 0) \<or>
         (\<exists>x. callOptions ''max_new_tokens'' = Some (AnyFloat64 (Fin64 x)) \<and>
              - (2 ^ 63) - 1 < x \<and> x < 1) \<or>
         (\<exists>t. callOptions ''max_new_tokens'' = Some (AnyFloat64 t) \<and>
              \<not> fits_int t \<and> platform t \<le> 0)
      then (generator_genOpts platform cfg callOptions)\<lparr>MaxNewTokens := 128\<rparr>
      else generator_genOpts platform cfg callOptions)"
proof -
  let ?sub = "(\<exists>n. callOptions ''max_new_tokens'' = Some (AnyInt n) \<and> n \<le> 0) \<or>
      (\<exists>x. callOptions ''max_new_tokens'' = Some (AnyFloat64 (Fin64 x)) \<and>
           - (2 ^ 63) - 1 < x \<and> x < 1) \<or>
      (\<exists>t. callOptions ''max_new_tokens'' = Some (AnyFloat64 t) \<and>
           \<not> fits_int t \<and> platform t \<le> 0)"
  have a: "(callOptions ''max_new_tokens'' = None \<or>
     (\<exists>v. callOptions ''max_new_tokens'' = Some v \<and>
          (\<forall>t. v \<noteq> AnyInt t) \<and> (\<forall>t. v \<noteq> AnyFloat64 t))) \<longrightarrow>
      call_maxNewTokens platform callOptions = 32"
    by (auto simp: call_maxNewTokens_def split: option.splits any.splits)
  have b: "(call_maxNewTokens platform callOptions \<le> 0) = ?sub"
  proof (cases "callOptions ''max_new_tokens''")
    case None
    then show ?thesis by (simp add: call_maxNewTokens_def)
  next
    case (Some v)
    show ?thesis
    proof (cases v)
      case (AnyFloat64 t)
      with Some have "call_maxNewTokens platform callOptions = float64_to_int platform t"
        by (simp add: call_maxNewTokens_def)
      with Some AnyFloat64 show ?thesis by (auto simp: float64_to_int_nonpos)
    qed (simp_all add: Some call_maxNewTokens_def)
  qed
  have m: "MaxNewTokens (generator_genOpts platform cfg callOptions) =
           call_maxNewTokens platform callOptions"
    by (simp add: generator_genOpts_def)
  have c: "normalizeMaxNewTokens (generator_genOpts platform cfg callOptions) =
     (if ?sub then (generator_genOpts platform cfg callOptions)\<lparr>MaxNewTokens := 128\<rparr>
      else generator_genOpts platform cfg callOptions)"
    unfolding b[symmetric] by (simp add: normalizeMaxNewTokens_def m)
  have e: "(callOptions ''max_new_tokens'' = None \<or>
     (\<exists>v. callOptions ''max_new_tokens'' = Some v \<and>
          (\<forall>t. v \<noteq> AnyInt t) \<and> (\<forall>t. v \<noteq> AnyFloat64 t))) \<longrightarrow>
      MaxNewTokens (generator_genOpts platform cfg callOptions) = 32 \<and>
      MaxNewTokens (normalizeMaxNewTokens (generator_genOpts platform cfg callOptions)) = 32"
    using a by (auto simp: normalizeMaxNewTokens_def m)
  have f: "(MaxNewTokens (generator_genOpts platform cfg callOptions) \<le> 0) = ?sub"
    using b m by simp
  show ?thesis by (rule conjI[OF e conjI[OF f c]])
qed

theorem pipeline_max_new_tokens_witness:
  "MaxNewTokens (generator_genOpts platform_amd64 (demo_config 1) no_options) = 32 \<and>
   MaxNewTokens (normalizeMaxNewTokens
     (generator_genOpts platform_amd64 (demo_config 1) no_options)) = 32"
  using pipeline_max_new_tokens[of no_options platform_amd64 "demo_config 1"]
  by (simp add: no_options_def)

text \<open>
  The claim as stated fails on the call options \<open>max_new_tokens = 0.5\<close>: the value is
  positive, the generator truncates it to 0, and \<open>Generate\<close> substitutes 128.
\<close>

theorem half_token_counterexample:
  "half_options ''max_new_tokens'' = Some (AnyFloat64 (Fin64 (1 / 2))) \<and>
   (0 :: real) < 1 / 2 \<and>
   MaxNewTokens (generator_genOpts platform_amd64 (demo_config 1) half_options) = 0 \<and>
   MaxNewTokens (normalizeMaxNewTokens
     (generator_genOpts platform_amd64 (demo_config 1) half_options)) = 128"
  by (simp add: half_options_def generator_genOpts_def call_maxNewTokens_def float64_to_int_def
      fits_int_def truncate_def normalizeMaxNewTokens_def)

text \<open>
  On amd64 the positive value \<open>1e30\<close> reaches the default as well: it is out of the
  range of \<open>int\<close>, the conversion gives the least \<open>int\<close>, and \<open>Generate\<close> substitutes
  128.
\<close>

lemma huge_float_amd64:
  "MaxNewTokens (generator_genOpts platform_amd64 (demo_config 1) huge_options) = - (2 ^ 63) \<and>
   MaxNewTokens (normalizeMaxNewTokens
     (generator_genOpts platform_amd64 (demo_config 1) huge_options)) = 128"
proof -
  have "\<not> fits_int (Fin64 (10 ^ 30))" by (simp add: fits_int_Fin64)
  then have "call_maxNewTokens platform_amd64 huge_options = - (2 ^ 63)"
    by (simp add: call_maxNewTokens_def huge_options_def float64_to_int_def platform_amd64_def)
  then show ?thesis by (simp add: generator_genOpts_def normalizeMaxNewTokens_def)
qed

subsection \<open>Tensors constructed and destroyed\<close>

lemma tensorFromInt64s_counts:
  "tensorFromInt64s ok w xs sh = (r, w') \<Longrightarrow>
   destroyed w' = destroyed w \<and>
   constructed w' = constructed w + (case r of None \<Rightarrow> 0 | Some t \<Rightarrow> 1)"
  by (auto simp: tensorFromInt64s_def Let_def split: if_splits)

lemma zeroTensorForInput_counts:
  "zeroTensorForInput ok m w name seqLen = (r, w') \<Longrightarrow>
   destroyed w' = destroyed w \<and>
   constructed w' = constructed w + (case r of Inl e \<Rightarrow> 0 | Inr t \<Rightarrow> 1) \<and>
   r \<noteq> Inl CreatePositionIds"
  by (auto simp: zeroTensorForInput_def tensorFromInt64s_def tensorFromFloat32s_def Let_def
      split: option.splits if_splits TensorElementDataType.splits)

lemma destroy_each_counts:
  "destroyed (destroy_each vs w) = destroyed w + length vs \<and>
   constructed (destroy_each vs w) = constructed w"
  by (induction vs arbitrary: w) (simp_all add: Destroy_def)

lemma DestroyOutput_counts:
  "destroyed (DestroyOutput w) = destroyed w \<and> constructed (DestroyOutput w) = constructed w"
  by (simp add: DestroyOutput_def)

lemma scan_outputs_counts:
  "scan_outputs names outs lg w = (r, w') \<Longrightarrow>
   destroyed w' = destroyed w \<and> constructed w' = constructed w"
proof (induction names arbitrary: outs lg w)
  case Nil
  then show ?case by simp
next
  case (Cons name names)
  then show ?case
    by (auto simp: Let_def DestroyOutput_counts
        split: if_splits option.splits ort_value.splits list.splits)
qed

lemma select_next_counts:
  "select_next ids sh raw w = (r, w') \<Longrightarrow>
   destroyed w' = destroyed w \<and> constructed w' = constructed w"
  by (auto simp: select_next_def Let_def DestroyOutput_counts split: if_splits)

text \<open>
  The assembly loop: on success every tensor it built is in \<open>toDestroy\<close>; on an error
  other than a failed \<open>position_ids\<close> tensor (and other than a panic) it has destroyed
  the two first tensors and all of \<open>toDestroy\<close>; on a failed \<open>position_ids\<close> tensor it
  has destroyed the two first tensors only.
\<close>

lemma assemble_counts:
  "assemble ok m ids it mt names inputs td w = (r, w') \<Longrightarrow>
   (case r of
      Inr (ins, td') \<Rightarrow>
        destroyed w' = destroyed w \<and> constructed w' + length td = constructed w + length td'
    | Inl e \<Rightarrow>
        if e = Panic then destroyed w' = destroyed w
        else if e = CreatePositionIds then destroyed w' = destroyed w + 2
        else destroyed w' + constructed w = destroyed w + 2 + length td + constructed w')"
proof (induction names arbitrary: inputs td w)
  case Nil
  then show ?case by auto
next
  case (Cons name names)
  consider (ids) "name = ''input_ids''"
    | (mask) "name \<noteq> ''input_ids''" "name = ''attention_mask''"
    | (pos) "name \<noteq> ''input_ids''" "name \<noteq> ''attention_mask''" "name = ''position_ids''"
    | (other) "name \<noteq> ''input_ids''" "name \<noteq> ''attention_mask''" "name \<noteq> ''position_ids''"
    by blast
  then show ?case
  proof cases
    case ids
    with Cons.prems have "assemble ok m ids it mt names (inputs @ [it]) td w = (r, w')" by simp
    from Cons.IH[OF this] show ?thesis .
  next
    case mask
    with Cons.prems have "assemble ok m ids it mt names (inputs @ [mt]) td w = (r, w')" by simp
    from Cons.IH[OF this] show ?thesis .
  next
    case pos
    obtain r1 w1 where t: "tensorFromInt64s ok w (map int [0..<length ids]) [1, int (length ids)] = (r1, w1)"
      by (cases "tensorFromInt64s ok w (map int [0..<length ids]) [1, int (length ids)]")
    note c = tensorFromInt64s_counts[OF t]
    show ?thesis
    proof (cases r1)
      case None
      with Cons.prems pos t c show ?thesis by (auto simp: Destroy_def)
    next
      case (Some t1)
      with Cons.prems pos t
      have "assemble ok m ids it mt names (inputs @ [t1]) (td @ [t1]) w1 = (r, w')" by simp
      from Cons.IH[OF this] c Some show ?thesis
        by (auto split: sum.splits prod.splits if_splits)
    qed
  next
    case other
    obtain r1 w1 where z: "zeroTensorForInput ok m w name (int (length ids)) = (r1, w1)"
      by (cases "zeroTensorForInput ok m w name (int (length ids))")
    note c = zeroTensorForInput_counts[OF z]
    show ?thesis
    proof (cases r1)
      case (Inl e)
      with Cons.prems other z c show ?thesis
        by (auto simp: Destroy_def destroy_each_counts split: if_splits)
    next
      case (Inr t1)
      with Cons.prems other z
      have "assemble ok m ids it mt names (inputs @ [t1]) (td @ [t1]) w1 = (r, w')" by simp
      from Cons.IH[OF this] c Inr show ?thesis
        by (auto split: sum.splits prod.splits if_splits)
    qed
  qed
qed

lemma forward_balanced:
  assumes "forward ok m ids msk w = (r, w')"
    and "r \<noteq> Inl CreatePositionIds" and "r \<noteq> Inl Panic"
  shows "constructed w' + destroyed w = constructed w + destroyed w'"
proof -
  obtain r1 w1 where t1: "tensorFromInt64s ok w ids [1, int (length ids)] = (r1, w1)"
    by (cases "tensorFromInt64s ok w ids [1, int (length ids)]")
  note c1 = tensorFromInt64s_counts[OF t1]
  show ?thesis
  proof (cases r1)
    case None
    with assms(1) t1 c1 show ?thesis by (auto simp: forward_def)
  next
    case (Some it)
    obtain r2 w2 where t2: "tensorFromInt64s ok w1 msk [1, int (length msk)] = (r2, w2)"
      by (cases "tensorFromInt64s ok w1 msk [1, int (length msk)]")
    note c2 = tensorFromInt64s_counts[OF t2]
    show ?thesis
    proof (cases r2)
      case None
      with assms(1) t1 t2 c1 c2 Some show ?thesis by (auto simp: forward_def Destroy_def)
    next
      case mt: (Some mt)
      obtain r3 w3 where a: "assemble ok m ids it mt (inputNames m) [] [] w2 = (r3, w3)"
        by (cases "assemble ok m ids it mt (inputNames m) [] [] w2")
      note c3 = assemble_counts[OF a]
      show ?thesis
      proof (cases r3)
        case (Inl e)
        with assms t1 t2 a Some mt have "r = Inl e" "w' = w3" by (simp_all add: forward_def)
        with assms(2,3) c1 c2 c3 Some mt Inl show ?thesis by (simp split: if_splits)
      next
        case (Inr p)
        obtain ins td where p: "p = (ins, td)" by (cases p)
        from c3 Inr p have c3': "destroyed w3 = destroyed w2" "constructed w3 = constructed w2 + length td"
          by simp_all
        show ?thesis
        proof (cases "session m")
          case None
          with assms t1 t2 a Some mt Inr p show ?thesis by (simp add: forward_def)
        next
          case run: (Some run)
          show ?thesis
          proof (cases "run (runCalls w3) ins")
            case None
            with assms(1) t1 t2 a Some mt Inr p run
            have "w' = destroy_each td (Destroy (Destroy (w3\<lparr>runCalls := Suc (runCalls w3)\<rparr>)))"
              by (simp add: forward_def)
            with c1 c2 c3' Some mt show ?thesis
              by (simp add: destroy_each_counts Destroy_def)
          next
            case outs: (Some outs)
            let ?w5 = "destroy_each td (Destroy (Destroy (w3\<lparr>runCalls := Suc (runCalls w3),
                         outAllocated := outAllocated w3 +
                           length (filter (\<lambda>v. v \<noteq> None) (take (length (outputNames m)) outs))\<rparr>)))"
            have w5: "destroyed ?w5 = destroyed w3 + 2 + length td" "constructed ?w5 = constructed w3"
              by (simp_all add: destroy_each_counts Destroy_def)
            obtain r6 w6 where s: "scan_outputs (outputNames m) (take (length (outputNames m)) outs) None ?w5 = (r6, w6)"
              by (cases "scan_outputs (outputNames m) (take (length (outputNames m)) outs) None ?w5")
            note c6 = scan_outputs_counts[OF s]
            from assms(1) t1 t2 a Some mt Inr p run outs s
            have "destroyed w' = destroyed w6 \<and> constructed w' = constructed w6"
              by (auto simp: forward_def Let_def split: sum.splits option.splits prod.splits
                  dest: select_next_counts)
            with c1 c2 c3' c6 w5 Some mt show ?thesis by simp
          qed
        qed
      qed
    qed
  qed
qed

lemma generate_loop_balanced:
  "generate_loop ok m tokenizer opts st = (r, w') \<Longrightarrow>
   r \<noteq> Inl CreatePositionIds \<Longrightarrow> r \<noteq> Inl Panic \<Longrightarrow>
   constructed w' + destroyed (wld st) = constructed (wld st) + destroyed w'"
proof (induction ok m tokenizer opts st arbitrary: r w' rule: generate_loop.induct)
  case (1 ok m tokenizer opts st)
  show ?case
  proof (cases "int (step st) < MaxNewTokens opts")
    case False
    with "1.prems"(1) show ?thesis by (subst (asm) generate_loop.simps) auto
  next
    case True
    show ?thesis
    proof (cases "loop_body ok m tokenizer opts st")
      case (Failed e w1)
      then have f: "forward ok m (curIDs st) (curMask st) (wld st) = (Inl e, w1)"
        by (simp add: loop_body_Failed)
      from "1.prems"(1) True Failed have "r = Inl e" "w' = w1"
        by (subst (asm) generate_loop.simps, simp)+
      with forward_balanced[OF f] "1.prems"(2,3) show ?thesis by simp
    next
      case (Broke s1)
      from loop_body_Broke[OF Broke] obtain nextID w1 where
        f: "forward ok m (curIDs st) (curMask st) (wld st) = (Inr nextID, w1)"
        and s1: "s1 = appended (st\<lparr>wld := w1\<rparr>) nextID
                   (FullText (step_event m tokenizer opts (st\<lparr>wld := w1\<rparr>) nextID))"
        by blast
      from "1.prems"(1) True Broke have "w' = wld s1"
        by (subst (asm) generate_loop.simps) simp
      with forward_balanced[OF f] s1 show ?thesis by (simp add: appended_def)
    next
      case (Next s1)
      from loop_body_Next[OF Next] obtain nextID w1 where
        f: "forward ok m (curIDs st) (curMask st) (wld st) = (Inr nextID, w1)"
        and s1: "s1 = appended (st\<lparr>wld := w1\<rparr>) nextID
                   (FullText (step_event m tokenizer opts (st\<lparr>wld := w1\<rparr>) nextID))"
        by blast
      from "1.prems"(1) True Next
      have g: "generate_loop ok m tokenizer opts (s1\<lparr>step := Suc (step st)\<rparr>) = (r, w')"
        by (subst (asm) generate_loop.simps) simp
      from "1.IH"[OF True Next g "1.prems"(2,3)] forward_balanced[OF f] s1
      show ?thesis by (simp add: appended_def)
    qed
  qed
qed

text \<open>
  Apart from a failed \<open>position_ids\<close> tensor (and a panic), every \<open>Generate\<close> call,
  completed or failed, destroys exactly the tensors it constructed.
\<close>

lemma Generate_balanced:
  assumes "Generate ok m tokenizer inputIDs attentionMask opts w = (r, w')"
    and "r \<noteq> Inl CreatePositionIds" and "r \<noteq> Inl Panic"
  shows "constructed w' + destroyed w = constructed w + destroyed w'"
  using Generate_cases[of ok m tokenizer inputIDs attentionMask opts w] assms
    generate_loop_balanced[of ok m tokenizer "normalizeMaxNewTokens opts"
      "init_state (inputIDs ! 0) (attentionMask ! 0) w" r w']
  by (auto simp: init_state_def)

lemma position_ids_eval:
  "Generate ok_first3
     (demo_model (- 1) [''input_ids'', ''attention_mask'', ''past_conv.0'', ''position_ids''])
     (Some demo_decode) [[1, 2]] [[1, 1]] (demo_opts 1) world0 =
   (Inl CreatePositionIds,
    \<lparr>newCalls = 4, constructed = 3, destroyed = 2, runCalls = 0,
     outAllocated = 0, outDestroyed = 0\<rparr>)"
  by (simp add: Generate_def generateSimpleCausal_def normalizeMaxNewTokens_def
      generate_loop.simps loop_body_def forward_def demo_defs
      tensorFromInt64s_def tensorFromFloat32s_def zeroTensorForInput_def
      strings_Contains_def zero_shape_def zero_dim_def wrap64_def Destroy_def Let_def)

text \<open>
  C1. The claim that every exit path of a step releases what the step constructed
  does not hold on the path of a failed \<open>position_ids\<close> tensor: that branch destroys
  the \<open>input_ids\<close> and \<open>attention_mask\<close> tensors but not \<open>toDestroy\<close>. On a graph
  that declares \<open>past_conv.0\<close> before \<open>position_ids\<close>, with a runtime whose fourth
  tensor construction fails, \<open>Generate\<close> fails with three tensors constructed and two
  destroyed: the zero tensor of \<open>past_conv.0\<close> is never released.
\<close>

theorem position_ids_failure_leaks:
  "fst (Generate ok_first3
     (demo_model (- 1) [''input_ids'', ''attention_mask'', ''past_conv.0'', ''position_ids''])
     (Some demo_decode) [[1, 2]] [[1, 1]] (demo_opts 1) world0) = Inl CreatePositionIds \<and>
   constructed (snd (Generate ok_first3
     (demo_model (- 1) [''input_ids'', ''attention_mask'', ''past_conv.0'', ''position_ids''])
     (Some demo_decode) [[1, 2]] [[1, 1]] (demo_opts 1) world0)) = 3 \<and>
   destroyed (snd (Generate ok_first3
     (demo_model (- 1) [''input_ids'', ''attention_mask'', ''past_conv.0'', ''position_ids''])
     (Some demo_decode) [[1, 2]] [[1, 1]] (demo_opts 1) world0)) = 2"
  by (simp add: position_ids_eval)

theorem position_ids_failure_leaks_witness:
  "constructed (snd (Generate ok_first3
     (demo_model (- 1) [''input_ids'', ''attention_mask'', ''past_conv.0'', ''position_ids''])
     (Some demo_decode) [[1, 2]] [[1, 1]] (demo_opts 1) world0)) \<noteq>
   destroyed (snd (Generate ok_first3
     (demo_model (- 1) [''input_ids'', ''attention_mask'', ''past_conv.0'', ''position_ids''])
     (Some demo_decode) [[1, 2]] [[1, 1]] (demo_opts 1) world0))"
  using position_ids_failure_leaks by simp

end
